theory Spec2Isabelle
  imports Complex_Main "HOL-Library.Word" "HOL-Library.AList"
begin

section \<open>Values shared by the detector and the task runners\<close>

text \<open>
  Python exceptions are values. Only the classes the sources can meet are listed; each
  carries the text that \<open>str(e)\<close> returns.
\<close>

datatype exn =
    ValueError string
  | ZeroDivisionError string
  | CvError string
  | ConnectionError string

fun str_exn :: "exn \<Rightarrow> string" where
  "str_exn (ValueError m) = m"
| "str_exn (ZeroDivisionError m) = m"
| "str_exn (CvError m) = m"
| "str_exn (ConnectionError m) = m"

text \<open>
  A Python \<open>float\<close>. Scores are read as exact reals; the three non-finite values that
  \<open>float(...)\<close> can also produce from a configuration string are kept apart, because
  comparisons treat them specially.
\<close>

datatype pyfloat = Finite real | PosInf | NegInf | NaN

text \<open>\<open>c >= f\<close> for a finite score \<open>c\<close> and a configured float \<open>f\<close>.\<close>

fun float_ge :: "real \<Rightarrow> pyfloat \<Rightarrow> bool" where
  "float_ge c (Finite m) = (m \<le> c)"
| "float_ge c PosInf = False"
| "float_ge c NegInf = True"
| "float_ge c NaN = False"

subsection \<open>Images\<close>

text \<open>
  A numpy image is a shape (\<open>shape[0]\<close> rows, \<open>shape[1]\<close> columns) and its pixel
  values. Colour images hold BGR triples of bytes, single-channel images hold bytes.
\<close>

type_synonym byte = "8 word"
type_synonym bgr = "byte \<times> byte \<times> byte"

record 'p image =
  height :: nat
  width :: nat
  pix :: "nat \<Rightarrow> nat \<Rightarrow> 'p"

definition is_empty :: "'p image \<Rightarrow> bool" where
  "is_empty img = (height img = 0 \<or> width img = 0)"

definition same_shape :: "'p image \<Rightarrow> 'q image \<Rightarrow> bool" where
  "same_shape a b = (height a = height b \<and> width a = width b)"

text \<open>
  Python's slice \<open>seq[a:b]\<close> on a sequence of length \<open>n\<close>: a negative bound counts
  from the end, then both bounds are clipped to \<open>0..n\<close>. The result is the first index
  taken and the number of indices taken.
\<close>

definition adjust_index :: "int \<Rightarrow> nat \<Rightarrow> nat" where
  "adjust_index i n =
     (let j = (if i < 0 then i + int n else i)
      in if j < 0 then 0 else if int n \<le> j then n else nat j)"

definition slice_bounds :: "int \<Rightarrow> int \<Rightarrow> nat \<Rightarrow> nat \<times> nat" where
  "slice_bounds a b n =
     (let start = adjust_index a n; stop = adjust_index b n
      in (start, stop - start))"

text \<open>\<open>image[y0:y1, x0:x1]\<close>: rows \<open>y0..y1\<close> and columns \<open>x0..x1\<close>, copied unchanged.\<close>

definition crop :: "'p image \<Rightarrow> int \<Rightarrow> int \<Rightarrow> int \<Rightarrow> int \<Rightarrow> 'p image" where
  "crop img y0 y1 x0 x1 =
     (let (r0, rows) = slice_bounds y0 y1 (height img);
          (c0, cols) = slice_bounds x0 x1 (width img)
      in \<lparr>height = rows, width = cols, pix = (\<lambda>i j. pix img (r0 + i) (c0 + j))\<rparr>)"

subsection \<open>The image library\<close>

text \<open>
  OpenCV is not part of the repository. What its functions compute from the pixels is
  left open as the fields of \<open>cv2\<close>; what callers rely on (which shape comes back, which
  calls are rejected) is written out below.
\<close>

datatype interpolation = INTER_LINEAR | INTER_AREA

datatype tm_method = TM_CCOEFF_NORMED | TM_CCORR_NORMED | TM_SQDIFF_NORMED

record cv2 =
  imdecode :: "byte list \<Rightarrow> bgr image option"
  resample :: "interpolation \<Rightarrow> bgr image \<Rightarrow> nat \<Rightarrow> nat \<Rightarrow> nat \<Rightarrow> nat \<Rightarrow> bgr"
  bgr2gray :: "bgr \<Rightarrow> byte"
  template_score :: "tm_method \<Rightarrow> byte image \<Rightarrow> byte image \<Rightarrow> real"

text \<open>
  \<open>cv2.resize(src, (w, h), interpolation)\<close>: an image of exactly \<open>h\<close> rows and \<open>w\<close>
  columns; an empty source or a requested size with a zero side is rejected.
\<close>

definition cv2_resize ::
    "cv2 \<Rightarrow> bgr image \<Rightarrow> nat \<times> nat \<Rightarrow> interpolation \<Rightarrow> exn + bgr image" where
  "cv2_resize cv src dsize interp =
     (case dsize of (w, h) \<Rightarrow>
        if is_empty src \<or> w = 0 \<or> h = 0 then Inl (CvError ''resize: empty size'')
        else Inr \<lparr>height = h, width = w, pix = resample cv interp src w h\<rparr>)"

text \<open>\<open>cv2.cvtColor(src, COLOR_BGR2GRAY)\<close>: same shape, one byte per pixel.\<close>

definition cv2_cvtColor :: "cv2 \<Rightarrow> bgr image \<Rightarrow> exn + byte image" where
  "cv2_cvtColor cv src =
     (if is_empty src then Inl (CvError ''cvtColor: empty source'')
      else Inr \<lparr>height = height src, width = width src,
                pix = (\<lambda>i j. bgr2gray cv (pix src i j))\<rparr>)"

text \<open>
  \<open>cv2.matchTemplate(image, templ, method)[0][0]\<close>: the score of the template laid at
  the top left corner. The template must fit inside the image.
\<close>

definition cv2_matchTemplate ::
    "cv2 \<Rightarrow> byte image \<Rightarrow> byte image \<Rightarrow> tm_method \<Rightarrow> exn + real" where
  "cv2_matchTemplate cv img templ method =
     (if is_empty img \<or> is_empty templ \<or> height img < height templ \<or> width img < width templ
      then Inl (CvError ''matchTemplate: template larger than image'')
      else Inr (template_score cv method img templ))"


section \<open>detector.py\<close>

text \<open>
  The dictionary that \<open>process_screenshot_url\<close> returns, and the same dictionary once
  \<open>process_multiple_screenshots\<close> has added the key \<open>screenshot_index\<close>.
\<close>

record url_match =
  character_name :: string
  confidence :: real
  url :: string

record match = url_match +
  screenshot_index :: int

text \<open>
  The fields of \<open>ApexDetector\<close>. \<open>portrait_region\<close> is the tuple built by
  \<open>_parse_region\<close>, of whatever length the string gave; \<open>reference_portraits\<close> is a
  dictionary read in insertion order.
\<close>

record ApexDetector =
  portrait_region :: "int list"
  min_confidence :: pyfloat
  reference_portraits :: "(string \<times> bgr image) list"

subsection \<open>\<open>resize_to_1080p\<close>\<close>

text \<open>
  The scale factors are Python floats; they are read as exact reals, and \<open>int(...)\<close> of
  a non-negative value is its floor.
\<close>

definition resize_to_1080p :: "cv2 \<Rightarrow> bgr image \<Rightarrow> exn + bgr image" where
  "resize_to_1080p cv img =
     (let target_height = (1080::nat); target_width = (1920::nat);
          h = height img; w = width img
      in if h \<le> target_height \<and> w \<le> target_width then Inr img
         else if h = 0 \<or> w = 0 then Inl (ZeroDivisionError ''division by zero'')
         else
           let scale_h = real target_height / real h;
               scale_w = real target_width / real w;
               scale = min scale_h scale_w;
               new_width = nat \<lfloor>real w * scale\<rfloor>;
               new_height = nat \<lfloor>real h * scale\<rfloor>
           in cv2_resize cv img (new_width, new_height) INTER_AREA)"

subsection \<open>\<open>extract_portrait_from_image\<close>\<close>

text \<open>\<open>x, y, w, h = self.portrait_region\<close>: only a tuple of four unpacks.\<close>

fun unpack4 :: "int list \<Rightarrow> exn + (int \<times> int \<times> int \<times> int)" where
  "unpack4 [x, y, w, h] = Inr (x, y, w, h)"
| "unpack4 (a # b # c # d # e # rest) = Inl (ValueError ''too many values to unpack (expected 4)'')"
| "unpack4 short = Inl (ValueError ''not enough values to unpack'')"

definition extract_portrait_from_image :: "ApexDetector \<Rightarrow> bgr image \<Rightarrow> exn + bgr image" where
  "extract_portrait_from_image det img =
     (case unpack4 (portrait_region det) of
        Inl e \<Rightarrow> Inl e
      | Inr (x, y, w, h) \<Rightarrow>
          if int (height img) < y + h \<or> int (width img) < x + w
          then Inl (ValueError ''Image dimensions too small for portrait extraction'')
          else Inr (crop img y (y + h) x (x + w)))"

subsection \<open>\<open>calculate_similarity\<close>\<close>

definition methods :: "tm_method list" where
  "methods = [TM_CCOEFF_NORMED, TM_CCORR_NORMED, TM_SQDIFF_NORMED]"

text \<open>The loop over \<open>methods\<close>, appending one score per method.\<close>

fun method_scores ::
    "cv2 \<Rightarrow> byte image \<Rightarrow> byte image \<Rightarrow> tm_method list \<Rightarrow> real list \<Rightarrow> exn + real list" where
  "method_scores cv gray1 gray2 [] scores = Inr scores"
| "method_scores cv gray1 gray2 (method # rest) scores =
     (case cv2_matchTemplate cv gray1 gray2 method of
        Inl e \<Rightarrow> Inl e
      | Inr result \<Rightarrow>
          let score = (if method = TM_SQDIFF_NORMED then 1 - result else result)
          in method_scores cv gray1 gray2 rest (scores @ [score]))"

text \<open>\<open>np.mean\<close> of a non-empty list of scores.\<close>

definition np_mean :: "real list \<Rightarrow> real" where
  "np_mean scores = sum_list scores / real (length scores)"

definition calculate_similarity :: "cv2 \<Rightarrow> bgr image \<Rightarrow> bgr image \<Rightarrow> exn + real" where
  "calculate_similarity cv portrait1 portrait2 =
     (case (if \<not> same_shape portrait1 portrait2
            then cv2_resize cv portrait2 (width portrait1, height portrait1) INTER_LINEAR
            else Inr portrait2) of
        Inl e \<Rightarrow> Inl e
      | Inr portrait2' \<Rightarrow>
          (case cv2_cvtColor cv portrait1 of
             Inl e \<Rightarrow> Inl e
           | Inr gray1 \<Rightarrow>
               (case cv2_cvtColor cv portrait2' of
                  Inl e \<Rightarrow> Inl e
                | Inr gray2 \<Rightarrow>
                    (case method_scores cv gray1 gray2 methods [] of
                       Inl e \<Rightarrow> Inl e
                     | Inr scores \<Rightarrow> Inr (np_mean scores)))))"

subsection \<open>\<open>download_image\<close>\<close>

text \<open>
  The network: what a GET of each URL ends in, and the log of the GETs issued so far.
  \<open>Raised\<close> stands for any exception other than the timeout, raised anywhere inside the
  \<open>try\<close> block.
\<close>

datatype http_outcome = Response nat "byte list" | TimeoutError | Raised string

record net =
  responses :: "string \<Rightarrow> http_outcome"
  requests :: "string list"

definition session_get :: "string \<Rightarrow> net \<Rightarrow> http_outcome \<times> net" where
  "session_get u n = (responses n u, n\<lparr>requests := requests n @ [u]\<rparr>)"

definition download_image :: "cv2 \<Rightarrow> string \<Rightarrow> net \<Rightarrow> bgr image option \<times> net" where
  "download_image cv u n =
     (case session_get u n of
        (Response status image_bytes, n') \<Rightarrow>
          if status \<noteq> 200 then (None, n')
          else (case imdecode cv image_bytes of
                  None \<Rightarrow> (None, n')
                | Some img \<Rightarrow> (Some img, n'))
      | (TimeoutError, n') \<Rightarrow> (None, n')
      | (Raised m, n') \<Rightarrow> (None, n'))"

subsection \<open>\<open>process_screenshot_url\<close>\<close>

text \<open>
  The loop over \<open>self.reference_portraits.items()\<close>; the state is
  \<open>(best_match, highest_confidence)\<close>. An exception of \<open>calculate_similarity\<close> leaves the
  loop.
\<close>

fun best_match_loop ::
    "cv2 \<Rightarrow> bgr image \<Rightarrow> string \<Rightarrow> (string \<times> bgr image) list \<Rightarrow>
     url_match option \<times> real \<Rightarrow> exn + (url_match option \<times> real)" where
  "best_match_loop cv portrait u [] st = Inr st"
| "best_match_loop cv portrait u ((char_name, ref_portrait) # rest) (best_match, highest_confidence) =
     (case calculate_similarity cv portrait ref_portrait of
        Inl e \<Rightarrow> Inl e
      | Inr c \<Rightarrow>
          if c > highest_confidence
          then best_match_loop cv portrait u rest
                 (Some \<lparr>character_name = char_name, confidence = c, url = u\<rparr>, c)
          else best_match_loop cv portrait u rest (best_match, highest_confidence))"

text \<open>The body of the \<open>try\<close> once an image has been downloaded.\<close>

definition score_image :: "ApexDetector \<Rightarrow> cv2 \<Rightarrow> string \<Rightarrow> bgr image \<Rightarrow> exn + url_match option" where
  "score_image det cv u img =
     (case resize_to_1080p cv img of
        Inl e \<Rightarrow> Inl e
      | Inr img' \<Rightarrow>
          (case extract_portrait_from_image det img' of
             Inl e \<Rightarrow> Inl e
           | Inr portrait \<Rightarrow>
               (case best_match_loop cv portrait u (reference_portraits det) (None, 0) of
                  Inl e \<Rightarrow> Inl e
                | Inr (best_match, highest_confidence) \<Rightarrow>
                    Inr (if float_ge highest_confidence (min_confidence det)
                         then best_match else None))))"

definition process_screenshot_url ::
    "ApexDetector \<Rightarrow> cv2 \<Rightarrow> string \<Rightarrow> net \<Rightarrow> url_match option \<times> net" where
  "process_screenshot_url det cv u n =
     (case download_image cv u n of
        (None, n') \<Rightarrow> (None, n')
      | (Some img, n') \<Rightarrow>
          (case score_image det cv u img of
             Inl e \<Rightarrow> (None, n')
           | Inr r \<Rightarrow> (r, n')))"

subsection \<open>\<open>process_multiple_screenshots\<close>\<close>

text \<open>
  \<open>asyncio.gather(*tasks, return_exceptions=True)\<close>: one entry per URL, in the order of
  the URLs, an exception being an entry like any other. The coroutines are run here one
  after the other; each handles its own exceptions, so every entry is a result.
\<close>

fun gather ::
    "ApexDetector \<Rightarrow> cv2 \<Rightarrow> string list \<Rightarrow> net \<Rightarrow> (exn + url_match option) list \<times> net" where
  "gather det cv [] n = ([], n)"
| "gather det cv (u # us) n =
     (case process_screenshot_url det cv u n of
        (r, n') \<Rightarrow> (case gather det cv us n' of (rs, n'') \<Rightarrow> (Inr r # rs, n'')))"

text \<open>
  The loop over \<open>enumerate(results)\<close>; the state is
  \<open>(best_overall, highest_confidence, best_index)\<close>.
\<close>

fun best_overall_loop ::
    "(nat \<times> (exn + url_match option)) list \<Rightarrow> url_match option \<times> real \<times> int \<Rightarrow>
     url_match option \<times> real \<times> int" where
  "best_overall_loop [] st = st"
| "best_overall_loop ((idx, Inl e) # rest) st = best_overall_loop rest st"
| "best_overall_loop ((idx, Inr None) # rest) st = best_overall_loop rest st"
| "best_overall_loop ((idx, Inr (Some r)) # rest) (best_overall, highest_confidence, best_index) =
     (if confidence r > highest_confidence
      then best_overall_loop rest (Some r, confidence r, int idx)
      else best_overall_loop rest (best_overall, highest_confidence, best_index))"

definition process_multiple_screenshots ::
    "ApexDetector \<Rightarrow> cv2 \<Rightarrow> string list \<Rightarrow> net \<Rightarrow> match option \<times> net" where
  "process_multiple_screenshots det cv screenshot_urls n =
     (case gather det cv screenshot_urls n of
        (results, n') \<Rightarrow>
          (case best_overall_loop (List.enumerate 0 results) (None, 0, - 1) of
             (best_overall, highest_confidence, best_index) \<Rightarrow>
               (case best_overall of
                  None \<Rightarrow> (None, n')
                | Some b \<Rightarrow>
                    (Some \<lparr>character_name = character_name b, confidence = confidence b,
                            url = url b, screenshot_index = best_index\<rparr>, n'))))"

definition process_screenshots ::
    "ApexDetector \<Rightarrow> cv2 \<Rightarrow> string list \<Rightarrow> net \<Rightarrow> match option \<times> net" where
  "process_screenshots det cv screenshot_urls n =
     process_multiple_screenshots det cv screenshot_urls n"


subsection \<open>Reading the configuration: \<open>__init__\<close>\<close>





















section \<open>The store, the clock and the task runners\<close>

subsection \<open>The records written\<close>

record detection =
  CharacterName :: string
  Confidence :: real
  ScreenshotIndex :: int
  ScreenshotUrl :: string

record detection_result =
  TaskId :: string
  VideoId :: string
  Status :: string
  Detections :: "detection list"
  BestOverall :: "detection option"
  UniqueCharacters :: "string list"
  TotalScreenshots :: nat
  SuccessfulDetections :: nat
  CompletedAt :: string
  Error :: "string option"

text \<open>The message taken from the queue by \<open>worker.py\<close>.\<close>

record task_data =
  task_id :: string
  clip_id :: string
  screenshot_urls :: "string list"

subsection \<open>Redis\<close>

text \<open>
  The keys \<open>result:...\<close> hold a value with its time to live in seconds (the value is
  kept as the record that \<open>json.dumps\<close> serialises), the keys \<open>stats:...\<close> hold
  counters, and \<open>apex_detection_queue\<close> is a list. Whether the server can be reached is
  decided call by call: \<open>faults\<close> lists, for the calls still to come, the message of the
  connection error that the call raises, or \<open>None\<close> when it goes through; calls beyond
  the end of the list go through.
\<close>

record store =
  entries :: "string \<rightharpoonup> nat \<times> detection_result"
  counters :: "string \<rightharpoonup> int"
  queue :: "task_data list"
  faults :: "string option list"

definition next_call :: "store \<Rightarrow> string option \<times> store" where
  "next_call s =
     (case faults s of
        [] \<Rightarrow> (None, s)
      | f # rest \<Rightarrow> (f, s\<lparr>faults := rest\<rparr>))"

definition setex :: "string \<Rightarrow> nat \<Rightarrow> detection_result \<Rightarrow> store \<Rightarrow> (exn + unit) \<times> store" where
  "setex key ttl v s =
     (case next_call s of
        (Some m, s') \<Rightarrow> (Inl (ConnectionError m), s')
      | (None, s') \<Rightarrow> (Inr (), s'\<lparr>entries := (entries s')(key \<mapsto> (ttl, v))\<rparr>))"

definition incr :: "string \<Rightarrow> store \<Rightarrow> (exn + unit) \<times> store" where
  "incr key s =
     (case next_call s of
        (Some m, s') \<Rightarrow> (Inl (ConnectionError m), s')
      | (None, s') \<Rightarrow>
          (Inr (), s'\<lparr>counters := (counters s')(key \<mapsto>
                     (case counters s' key of None \<Rightarrow> 1 | Some c \<Rightarrow> c + 1))\<rparr>))"

text \<open>\<open>brpop\<close> with a timeout: the last element of the list, or nothing when it is empty.\<close>

definition brpop :: "store \<Rightarrow> (exn + task_data option) \<times> store" where
  "brpop s =
     (case next_call s of
        (Some m, s') \<Rightarrow> (Inl (ConnectionError m), s')
      | (None, s') \<Rightarrow>
          (if queue s' = [] then (Inr None, s')
           else (Inr (Some (last (queue s'))), s'\<lparr>queue := butlast (queue s')\<rparr>)))"

subsection \<open>The clock\<close>

text \<open>
  \<open>datetime.now(timezone.utc)\<close>, as the two texts the runners take from it:
  \<open>isoformat()\<close> and \<open>strftime('%Y-%m-%d')\<close>. One reading serves a whole task.
\<close>

record utc =
  isoformat :: string
  ymd :: string

subsection \<open>The body shared by both runners\<close>

text \<open>
  \<open>tasks.py\<close> and \<open>worker.py\<close> hold the same statements inside \<open>try\<close> and the same
  statements inside \<open>except\<close>, up to the last one. \<open>completed_result\<close> is the dictionary
  \<open>response\<close> built from what the detector returned, \<open>run_try\<close> is the \<open>try\<close> block,
  \<open>error_result\<close> the dictionary of the handler, and \<open>run_except\<close> the handler up to and
  including the counter.
\<close>

definition completed_result ::
    "utc \<Rightarrow> string \<Rightarrow> string \<Rightarrow> string list \<Rightarrow> match option \<Rightarrow> detection_result" where
  "completed_result now tid cid urls result =
     (let (best_overall, detections_list, unique_characters, successful_detections) =
            (case result of
               None \<Rightarrow> (None, [], [], 0)
             | Some r \<Rightarrow>
                 let b = \<lparr>CharacterName = character_name r, Confidence = confidence r,
                          ScreenshotIndex = screenshot_index r, ScreenshotUrl = url r\<rparr>
                 in (Some b, [b], [character_name r], 1))
      in \<lparr>TaskId = tid, VideoId = cid, Status = ''completed'',
          Detections = detections_list, BestOverall = best_overall,
          UniqueCharacters = unique_characters, TotalScreenshots = length urls,
          SuccessfulDetections = successful_detections,
          CompletedAt = isoformat now, Error = None\<rparr>)"

definition run_try ::
    "ApexDetector \<Rightarrow> cv2 \<Rightarrow> utc \<Rightarrow> string \<Rightarrow> string \<Rightarrow> string list \<Rightarrow> net \<Rightarrow> store \<Rightarrow>
     (exn + detection_result) \<times> net \<times> store" where
  "run_try det cv now tid cid urls n s =
     (case process_screenshots det cv urls n of
        (result, n') \<Rightarrow>
          let response = completed_result now tid cid urls result
          in (case setex (''result:'' @ tid) 604800 response s of
                (Inl e, s') \<Rightarrow> (Inl e, n', s')
              | (Inr _, s') \<Rightarrow>
                  (case incr (''stats:completed:'' @ ymd now) s' of
                     (Inl e, s'') \<Rightarrow> (Inl e, n', s'')
                   | (Inr _, s'') \<Rightarrow> (Inr response, n', s''))))"

definition error_result :: "utc \<Rightarrow> string \<Rightarrow> string \<Rightarrow> string list \<Rightarrow> exn \<Rightarrow> detection_result" where
  "error_result now tid cid urls e =
     \<lparr>TaskId = tid, VideoId = cid, Status = ''failed'', Detections = [], BestOverall = None,
      UniqueCharacters = [], TotalScreenshots = length urls, SuccessfulDetections = 0,
      CompletedAt = isoformat now, Error = Some (str_exn e)\<rparr>"

definition run_except ::
    "utc \<Rightarrow> string \<Rightarrow> string \<Rightarrow> string list \<Rightarrow> exn \<Rightarrow> store \<Rightarrow> (exn + unit) \<times> store" where
  "run_except now tid cid urls e s =
     (case setex (''result:'' @ tid) 86400 (error_result now tid cid urls e) s of
        (Inl e', s') \<Rightarrow> (Inl e', s')
      | (Inr _, s') \<Rightarrow> incr (''stats:failed:'' @ ymd now) s')"

subsection \<open>tasks.py\<close>

text \<open>The Celery task. Its handler ends in \<open>raise\<close>: the exception caught goes on to Celery.\<close>

definition process_video_screenshots ::
    "ApexDetector \<Rightarrow> cv2 \<Rightarrow> utc \<Rightarrow> string \<Rightarrow> string \<Rightarrow> string list \<Rightarrow> net \<Rightarrow> store \<Rightarrow>
     (exn + detection_result) \<times> net \<times> store" where
  "process_video_screenshots det cv now tid cid urls n s =
     (case run_try det cv now tid cid urls n s of
        (Inr response, n', s') \<Rightarrow> (Inr response, n', s')
      | (Inl e, n', s') \<Rightarrow>
          (case run_except now tid cid urls e s' of
             (Inl e', s'') \<Rightarrow> (Inl e', n', s'')
           | (Inr _, s'') \<Rightarrow> (Inl e, n', s'')))"

subsection \<open>worker.py\<close>

text \<open>The handler of \<open>process_task\<close> ends in \<open>return error_result\<close>.\<close>

definition process_task ::
    "ApexDetector \<Rightarrow> cv2 \<Rightarrow> utc \<Rightarrow> task_data \<Rightarrow> net \<Rightarrow> store \<Rightarrow>
     (exn + detection_result) \<times> net \<times> store" where
  "process_task det cv now t n s =
     (let tid = task_id t; cid = clip_id t; urls = screenshot_urls t
      in case run_try det cv now tid cid urls n s of
           (Inr response, n', s') \<Rightarrow> (Inr response, n', s')
         | (Inl e, n', s') \<Rightarrow>
             (case run_except now tid cid urls e s' of
                (Inl e', s'') \<Rightarrow> (Inl e', n', s'')
              | (Inr _, s'') \<Rightarrow> (Inr (error_result now tid cid urls e), n', s'')))"

text \<open>
  One turn of the \<open>while True\<close> loop of \<open>main\<close>: take a task, process it, drop what
  \<open>process_task\<close> returns; an exception is logged and the loop goes on.
\<close>

definition main_iteration :: "ApexDetector \<Rightarrow> cv2 \<Rightarrow> utc \<Rightarrow> net \<Rightarrow> store \<Rightarrow> net \<times> store" where
  "main_iteration det cv now n s =
     (case brpop s of
        (Inl e, s') \<Rightarrow> (n, s')
      | (Inr None, s') \<Rightarrow> (n, s')
      | (Inr (Some t), s') \<Rightarrow>
          (case process_task det cv now t n s' of (r, n', s'') \<Rightarrow> (n', s'')))"


section \<open>Loop invariants\<close>

text \<open>
  What holds of \<open>(best_match, highest_confidence)\<close> once the references in \<open>seen\<close> have
  been scored against a portrait: no score obtained exceeds \<open>highest_confidence\<close>, and
  \<open>best_match\<close>, when there is one, is a reference seen whose score is
  \<open>highest_confidence\<close>, a positive number.
\<close>

definition champion_ok ::
    "cv2 \<Rightarrow> bgr image \<Rightarrow> string \<Rightarrow> (string \<times> bgr image) set \<Rightarrow> url_match option \<times> real \<Rightarrow> bool" where
  "champion_ok cv portrait u seen st =
     ((\<forall>(name, ref) \<in> seen. \<forall>c. calculate_similarity cv portrait ref = Inr c \<longrightarrow> c \<le> snd st) \<and>
      (case fst st of
         None \<Rightarrow> snd st = 0
       | Some m \<Rightarrow>
           confidence m = snd st \<and> 0 < snd st \<and> url m = u \<and>
           (\<exists>ref. (character_name m, ref) \<in> seen \<and>
                  calculate_similarity cv portrait ref = Inr (confidence m))))"

text \<open>
  What holds of \<open>(best_overall, highest_confidence, best_index)\<close> once the entries \<open>rs\<close>
  have been visited: no entry exceeds \<open>highest_confidence\<close>, and \<open>best_overall\<close>, when
  there is one, is the entry at \<open>best_index\<close>, which every earlier entry is strictly below.
\<close>

definition overall_ok :: "(exn + url_match option) list \<Rightarrow> url_match option \<times> real \<times> int \<Rightarrow> bool" where
  "overall_ok rs st =
     (case st of (b, hi, bi) \<Rightarrow>
        (\<forall>j<length rs. \<forall>r. rs ! j = Inr (Some r) \<longrightarrow> confidence r \<le> hi) \<and>
        (case b of
           None \<Rightarrow> hi = 0 \<and> bi = - 1
         | Some w \<Rightarrow>
             hi = confidence w \<and>
             (\<exists>i<length rs. bi = int i \<and> rs ! i = Inr (Some w) \<and>
                (\<forall>j<i. \<forall>r. rs ! j = Inr (Some r) \<longrightarrow> confidence r < confidence w))))"

section \<open>Predicates of the statements\<close>

text \<open>
  What a runner that started in store \<open>s\<close> may have left under a key: what was there
  before, or, under \<open>result:<task_id>\<close>, one of its two records with its time to live.
\<close>

definition left_by ::
    "ApexDetector \<Rightarrow> cv2 \<Rightarrow> utc \<Rightarrow> string \<Rightarrow> string \<Rightarrow> string list \<Rightarrow> net \<Rightarrow> store \<Rightarrow>
     string \<Rightarrow> nat \<times> detection_result \<Rightarrow> bool" where
  "left_by det cv now tid cid urls n s k v =
     (entries s k = Some v \<or>
      (k = ''result:'' @ tid \<and>
       (v = (604800, completed_result now tid cid urls (fst (process_screenshots det cv urls n))) \<or>
        (\<exists>e. v = (86400, error_result now tid cid urls e)))))"

text \<open>
  The three fields of a record that tell whether a match was found agree with one
  another.
\<close>

definition consistent :: "detection_result \<Rightarrow> bool" where
  "consistent r =
     (((BestOverall r = None) = (Detections r = [])) \<and>
      ((Detections r = []) = (SuccessfulDetections r = 0)) \<and>
      ((BestOverall r \<noteq> None) = (Detections r \<noteq> [])) \<and>
      ((Detections r \<noteq> []) = (SuccessfulDetections r = 1)))"

text \<open>Every detection of a record is at or above the floor of the detector.\<close>

definition above_floor :: "ApexDetector \<Rightarrow> detection_result \<Rightarrow> bool" where
  "above_floor det r =
     ((case BestOverall r of
         None \<Rightarrow> True
       | Some d \<Rightarrow> float_ge (Confidence d) (min_confidence det)) \<and>
      list_all (\<lambda>d. float_ge (Confidence d) (min_confidence det)) (Detections r))"

text \<open>The next call to the store goes through.\<close>

definition goes_through :: "string option list \<Rightarrow> bool" where
  "goes_through fs = (case fs of [] \<Rightarrow> True | f # rest \<Rightarrow> f = None)"

text \<open>
  A URL fails: its download ends in a status other than 200, a timeout or any other
  exception, its bytes do not decode, or the frame cannot be resized or is too small for
  the portrait region.
\<close>

definition url_fails :: "ApexDetector \<Rightarrow> cv2 \<Rightarrow> net \<Rightarrow> string \<Rightarrow> bool" where
  "url_fails det cv n u =
     (case responses n u of
        Response status body \<Rightarrow>
          status \<noteq> 200 \<or>
          (case imdecode cv body of
             None \<Rightarrow> True
           | Some img \<Rightarrow>
               (case resize_to_1080p cv img of
                  Inl e \<Rightarrow> True
                | Inr img' \<Rightarrow>
                    (case extract_portrait_from_image det img' of Inl e \<Rightarrow> True | Inr p \<Rightarrow> False)))
      | TimeoutError \<Rightarrow> True
      | Raised m \<Rightarrow> True)"

section \<open>Example inputs\<close>

text \<open>
  A small world to run the definitions in. Every downloaded image is a frame of one
  colour, given by the first byte of the body; a body of one byte is a frame of 1920 by
  1080, one of two bytes a frame of 800 by 600 and a longer one a frame of 3840 by 2160.
  Two references are loaded; a reference of the colour of the frame scores 1 by every
  method and any other reference scores one half.
\<close>

definition flat :: "nat \<Rightarrow> nat \<Rightarrow> byte \<Rightarrow> bgr image" where
  "flat h w b = \<lparr>height = h, width = w, pix = (\<lambda>i j. (b, b, b))\<rparr>"

definition cv_ex :: cv2 where
  "cv_ex =
     \<lparr>imdecode = (\<lambda>bs. case bs of
                         [] \<Rightarrow> None
                       | [b] \<Rightarrow> Some (flat 1080 1920 b)
                       | [b, c] \<Rightarrow> Some (flat 600 800 b)
                       | b # c # d # rest \<Rightarrow> Some (flat 2160 3840 b)),
      resample = (\<lambda>interp src w h i j. pix src 0 0),
      bgr2gray = (\<lambda>p. fst p),
      template_score = (\<lambda>m a t.
         if pix a 0 0 = pix t 0 0 then (if m = TM_SQDIFF_NORMED then 0 else 1) else 1 / 2)\<rparr>"

definition det_ex :: ApexDetector where
  "det_ex =
     \<lparr>portrait_region = [90, 955, 77, 66], min_confidence = Finite (44 / 100),
      reference_portraits = [(''wraith'', flat 66 77 10), (''bangalore'', flat 66 77 20)]\<rparr>"

definition net_ex :: net where
  "net_ex =
     \<lparr>responses = (\<lambda>u.
        if u = ''a'' then Response 200 [10]
        else if u = ''b'' then Response 200 [20]
        else if u = ''c'' then Response 200 [30]
        else if u = ''d'' then Response 404 []
        else if u = ''e'' then Response 200 []
        else if u = ''s'' then Response 200 [10, 0]
        else if u = ''k'' then Response 200 [20, 0, 0]
        else if u = ''x'' then Raised ''Cannot connect to host''
        else TimeoutError),
      requests = []\<rparr>"

text \<open>A library whose three methods all come out at zero, and a detector whose floor is negative.\<close>

definition cv_low :: cv2 where
  "cv_low = cv_ex\<lparr>template_score := (\<lambda>m a t. if m = TM_SQDIFF_NORMED then 1 else 0)\<rparr>"

definition det_low :: ApexDetector where
  "det_low = det_ex\<lparr>min_confidence := Finite (- 1)\<rparr>"

text \<open>A clock reading, a task, and stores: one always reachable, one whose first call fails.\<close>

definition now_ex :: utc where
  "now_ex = \<lparr>isoformat = ''2026-11-04T00:00:00+00:00'', ymd = ''2026-11-04''\<rparr>"

definition task_ex :: task_data where
  "task_ex = \<lparr>task_id = ''t1'', clip_id = ''clip'', screenshot_urls = [''c'', ''a'', ''b'']\<rparr>"

definition store_ex :: store where
  "store_ex = \<lparr>entries = Map.empty, counters = Map.empty, queue = [], faults = []\<rparr>"

definition store_down1 :: store where
  "store_down1 = store_ex\<lparr>faults := [Some ''Error 111 connecting to redis:6379. Connection refused.'']\<rparr>"

text \<open>A detector with a floor above one half.\<close>

definition det_strict :: ApexDetector where
  "det_strict = det_ex\<lparr>min_confidence := Finite (3 / 4)\<rparr>"

text \<open>The two records that the runs of the examples write.\<close>

definition completed_ex :: detection_result where
  "completed_ex =
     \<lparr>TaskId = ''t1'', VideoId = ''clip'', Status = ''completed'',
      Detections = [\<lparr>CharacterName = ''wraith'', Confidence = 1, ScreenshotIndex = 1,
                     ScreenshotUrl = ''a''\<rparr>],
      BestOverall = Some \<lparr>CharacterName = ''wraith'', Confidence = 1, ScreenshotIndex = 1,
                     ScreenshotUrl = ''a''\<rparr>,
      UniqueCharacters = [''wraith''], TotalScreenshots = 3, SuccessfulDetections = 1,
      CompletedAt = ''2026-11-04T00:00:00+00:00'', Error = None\<rparr>"

definition failed_ex :: detection_result where
  "failed_ex =
     \<lparr>TaskId = ''t1'', VideoId = ''clip'', Status = ''failed'',
      Detections = [], BestOverall = None,
      UniqueCharacters = [], TotalScreenshots = 3, SuccessfulDetections = 0,
      CompletedAt = ''2026-11-04T00:00:00+00:00'',
      Error = Some ''Error 111 connecting to redis:6379. Connection refused.''\<rparr>"

text \<open>A store that refuses the first two calls, and one that holds the example task.\<close>

definition store_down2 :: store where
  "store_down2 = store_ex\<lparr>faults := [Some ''Connection refused.'', Some ''Connection refused.'']\<rparr>"

definition store_queued :: store where
  "store_queued = store_ex\<lparr>queue := [task_ex], faults := [None, Some ''Error 111 connecting to redis:6379. Connection refused.'']\<rparr>"




section \<open>Properties of the detector\<close>

subsection \<open>The champion of one screenshot\<close>


lemma champion_ok_step:
  assumes ok: "champion_ok cv portrait u seen (b, h)"
    and sim: "calculate_similarity cv portrait ref_portrait = Inr c"
  shows "champion_ok cv portrait u (insert (char_name, ref_portrait) seen)
           (if c > h then (Some \<lparr>character_name = char_name, confidence = c, url = u\<rparr>, c)
            else (b, h))"
proof (cases "c > h")
  case True
  from ok have "0 \<le> h" by (auto simp: champion_ok_def split: option.splits)
  with True have "0 < c" by simp
  moreover from ok True sim
  have "\<forall>(name, ref) \<in> insert (char_name, ref_portrait) seen.
          \<forall>c'. calculate_similarity cv portrait ref = Inr c' \<longrightarrow> c' \<le> c"
    by (fastforce simp: champion_ok_def)
  ultimately show ?thesis using True sim by (auto simp: champion_ok_def)
next
  case False
  from ok False sim
  have "\<forall>(name, ref) \<in> insert (char_name, ref_portrait) seen.
          \<forall>c'. calculate_similarity cv portrait ref = Inr c' \<longrightarrow> c' \<le> h"
    by (fastforce simp: champion_ok_def)
  moreover from ok have "case b of
         None \<Rightarrow> h = 0
       | Some m \<Rightarrow>
           confidence m = h \<and> 0 < h \<and> url m = u \<and>
           (\<exists>ref. (character_name m, ref) \<in> insert (char_name, ref_portrait) seen \<and>
                  calculate_similarity cv portrait ref = Inr (confidence m))"
    by (auto simp: champion_ok_def split: option.splits)
  ultimately show ?thesis using False by (auto simp: champion_ok_def split: option.splits)
qed

lemma best_match_loop_ok:
  "best_match_loop cv portrait u refs st = Inr st' \<Longrightarrow> champion_ok cv portrait u seen st \<Longrightarrow>
   champion_ok cv portrait u (seen \<union> set refs) st'"
proof (induction refs arbitrary: st seen)
  case Nil
  then show ?case by simp
next
  case (Cons a refs)
  obtain char_name ref_portrait where a: "a = (char_name, ref_portrait)" by (cases a)
  obtain b h where st: "st = (b, h)" by (cases st)
  show ?case
  proof (cases "calculate_similarity cv portrait ref_portrait")
    case (Inl e)
    with Cons.prems a st show ?thesis by simp
  next
    case (Inr c)
    let ?st1 = "if c > h then (Some \<lparr>character_name = char_name, confidence = c, url = u\<rparr>, c)
                else (b, h)"
    from Cons.prems(1) a st Inr
    have run: "best_match_loop cv portrait u refs ?st1 = Inr st'" by (auto split: if_splits)
    from Cons.prems(2) st Inr
    have "champion_ok cv portrait u (insert (char_name, ref_portrait) seen) ?st1"
      by (simp only: champion_ok_step)
    with run have "champion_ok cv portrait u (insert (char_name, ref_portrait) seen \<union> set refs) st'"
      by (rule Cons.IH)
    with a show ?thesis by simp
  qed
qed

lemma score_image_Some:
  assumes "score_image det cv u img = Inr (Some m)"
  shows "0 < confidence m \<and> float_ge (confidence m) (min_confidence det) \<and> url m = u \<and>
         (\<exists>img' portrait ref.
            resize_to_1080p cv img = Inr img' \<and>
            extract_portrait_from_image det img' = Inr portrait \<and>
            (character_name m, ref) \<in> set (reference_portraits det) \<and>
            calculate_similarity cv portrait ref = Inr (confidence m) \<and>
            (\<forall>(name, ref') \<in> set (reference_portraits det).
               \<forall>c. calculate_similarity cv portrait ref' = Inr c \<longrightarrow> c \<le> confidence m))"
proof -
  from assms obtain img' portrait b h where
    rs: "resize_to_1080p cv img = Inr img'"
    and ex: "extract_portrait_from_image det img' = Inr portrait"
    and loop: "best_match_loop cv portrait u (reference_portraits det) (None, 0) = Inr (b, h)"
    and sel: "(if float_ge h (min_confidence det) then b else None) = Some m"
    by (auto simp: score_image_def split: sum.splits prod.splits)
  have "champion_ok cv portrait u {} (None, 0)" by (simp add: champion_ok_def)
  with loop have "champion_ok cv portrait u ({} \<union> set (reference_portraits det)) (b, h)"
    by (rule best_match_loop_ok)
  then have ok: "champion_ok cv portrait u (set (reference_portraits det)) (b, h)" by simp
  from sel have b: "b = Some m" and ge: "float_ge h (min_confidence det)"
    by (auto split: if_splits)
  from ok b have h: "confidence m = h" and pos: "0 < h" and u: "url m = u"
    by (auto simp: champion_ok_def)
  from ok b obtain ref where ref: "(character_name m, ref) \<in> set (reference_portraits det)"
      "calculate_similarity cv portrait ref = Inr (confidence m)"
    by (auto simp: champion_ok_def)
  from ok h have top: "\<forall>(name, ref') \<in> set (reference_portraits det).
               \<forall>c. calculate_similarity cv portrait ref' = Inr c \<longrightarrow> c \<le> confidence m"
    by (simp add: champion_ok_def)
  from rs ex ref top have "\<exists>img' portrait ref.
            resize_to_1080p cv img = Inr img' \<and>
            extract_portrait_from_image det img' = Inr portrait \<and>
            (character_name m, ref) \<in> set (reference_portraits det) \<and>
            calculate_similarity cv portrait ref = Inr (confidence m) \<and>
            (\<forall>(name, ref') \<in> set (reference_portraits det).
               \<forall>c. calculate_similarity cv portrait ref' = Inr c \<longrightarrow> c \<le> confidence m)"
    by blast
  with h pos u ge show ?thesis by simp
qed

lemma process_screenshot_url_Some:
  assumes "fst (process_screenshot_url det cv u n) = Some m"
  shows "\<exists>img. fst (download_image cv u n) = Some img \<and> score_image det cv u img = Inr (Some m)"
  using assms
  by (auto simp: process_screenshot_url_def split: prod.splits option.splits sum.splits)

lemma download_image_net: "snd (download_image cv u n) = n\<lparr>requests := requests n @ [u]\<rparr>"
  by (simp add: download_image_def session_get_def split: http_outcome.splits option.splits)

lemma download_image_fst:
  "responses n = responses n' \<Longrightarrow> fst (download_image cv u n) = fst (download_image cv u n')"
  by (simp add: download_image_def session_get_def split: http_outcome.splits option.splits)

lemma process_screenshot_url_net:
  "snd (process_screenshot_url det cv u n) = n\<lparr>requests := requests n @ [u]\<rparr>"
proof -
  obtain r n' where d: "download_image cv u n = (r, n')" by (cases "download_image cv u n")
  with download_image_net [of cv u n] have "n' = n\<lparr>requests := requests n @ [u]\<rparr>" by simp
  with d show ?thesis
    by (simp add: process_screenshot_url_def split: option.splits sum.splits)
qed

lemma process_screenshot_url_fst:
  assumes "responses n = responses n'"
  shows "fst (process_screenshot_url det cv u n) = fst (process_screenshot_url det cv u n')"
proof -
  obtain r m where d: "download_image cv u n = (r, m)" by (cases "download_image cv u n")
  obtain r' m' where d': "download_image cv u n' = (r', m')" by (cases "download_image cv u n'")
  from download_image_fst [OF assms, of cv u] d d' have "r' = r" by simp
  with d d' show ?thesis
    by (simp add: process_screenshot_url_def split: option.splits sum.splits)
qed

lemma gather_net: "snd (gather det cv us n) = n\<lparr>requests := requests n @ us\<rparr>"
proof (induction us arbitrary: n)
  case Nil
  show ?case by simp
next
  case (Cons u us)
  obtain r n' where p: "process_screenshot_url det cv u n = (r, n')"
    by (cases "process_screenshot_url det cv u n")
  with process_screenshot_url_net [of det cv u n]
  have n': "n' = n\<lparr>requests := requests n @ [u]\<rparr>" by simp
  obtain rs n'' where g: "gather det cv us n' = (rs, n'')" by (cases "gather det cv us n'")
  with Cons.IH [of n'] n' have "n'' = n\<lparr>requests := requests n @ u # us\<rparr>" by simp
  with p g show ?case by simp
qed

lemma gather_results:
  "fst (gather det cv us n) = map (\<lambda>u. Inr (fst (process_screenshot_url det cv u n))) us"
proof (induction us arbitrary: n)
  case Nil
  show ?case by simp
next
  case (Cons u us)
  obtain r n' where p: "process_screenshot_url det cv u n = (r, n')"
    by (cases "process_screenshot_url det cv u n")
  with process_screenshot_url_net [of det cv u n] have "responses n' = responses n" by simp
  then have same: "\<And>v. fst (process_screenshot_url det cv v n') = fst (process_screenshot_url det cv v n)"
    by (rule process_screenshot_url_fst)
  obtain rs n'' where g: "gather det cv us n' = (rs, n'')" by (cases "gather det cv us n'")
  with Cons.IH [of n'] same
  have "rs = map (\<lambda>u. Inr (fst (process_screenshot_url det cv u n))) us" by simp
  with p g show ?case by simp
qed

lemma best_overall_loop_append:
  "best_overall_loop (xs @ ys) st = best_overall_loop ys (best_overall_loop xs st)"
  by (induction xs st rule: best_overall_loop.induct) simp_all

lemma overall_ok_step:
  assumes "overall_ok rs st"
  shows "overall_ok (rs @ [x]) (best_overall_loop [(length rs, x)] st)"
proof -
  obtain b hi bi where st: "st = (b, hi, bi)" by (cases st)
  from assms st have le: "\<And>j r. j < length rs \<Longrightarrow> rs ! j = Inr (Some r) \<Longrightarrow> confidence r \<le> hi"
    by (simp add: overall_ok_def)
  from assms st have best: "case b of
           None \<Rightarrow> hi = 0 \<and> bi = - 1
         | Some w \<Rightarrow>
             hi = confidence w \<and>
             (\<exists>i<length rs. bi = int i \<and> rs ! i = Inr (Some w) \<and>
                (\<forall>j<i. \<forall>r. rs ! j = Inr (Some r) \<longrightarrow> confidence r < confidence w))"
    by (simp add: overall_ok_def)
  have keep: "overall_ok (rs @ [x]) (b, hi, bi)"
    if "\<And>r. x = Inr (Some r) \<Longrightarrow> confidence r \<le> hi"
  proof -
    have "\<forall>j<length (rs @ [x]). \<forall>r. (rs @ [x]) ! j = Inr (Some r) \<longrightarrow> confidence r \<le> hi"
      using le that by (auto simp: nth_append less_Suc_eq)
    moreover have "case b of
           None \<Rightarrow> hi = 0 \<and> bi = - 1
         | Some w \<Rightarrow>
             hi = confidence w \<and>
             (\<exists>i<length (rs @ [x]). bi = int i \<and> (rs @ [x]) ! i = Inr (Some w) \<and>
                (\<forall>j<i. \<forall>r. (rs @ [x]) ! j = Inr (Some r) \<longrightarrow> confidence r < confidence w))"
    proof (cases b)
      case None
      with best show ?thesis by simp
    next
      case (Some w)
      with best obtain i where i: "i < length rs" "bi = int i" "rs ! i = Inr (Some w)"
        "\<forall>j<i. \<forall>r. rs ! j = Inr (Some r) \<longrightarrow> confidence r < confidence w"
        and hi: "hi = confidence w" by auto
      from i have "i < length (rs @ [x]) \<and> bi = int i \<and> (rs @ [x]) ! i = Inr (Some w) \<and>
                (\<forall>j<i. \<forall>r. (rs @ [x]) ! j = Inr (Some r) \<longrightarrow> confidence r < confidence w)"
        by (simp add: nth_append)
      with Some hi show ?thesis by auto
    qed
    ultimately show ?thesis by (simp add: overall_ok_def)
  qed
  show ?thesis
  proof (cases x)
    case (Inl e)
    then show ?thesis using keep st by simp
  next
    case (Inr ro)
    show ?thesis
    proof (cases ro)
      case None
      with Inr show ?thesis using keep st by simp
    next
      case (Some r)
      show ?thesis
      proof (cases "confidence r > hi")
        case False
        with Inr Some show ?thesis using keep st by simp
      next
        case True
        have "\<forall>j<length (rs @ [x]). \<forall>r'. (rs @ [x]) ! j = Inr (Some r') \<longrightarrow> confidence r' \<le> confidence r"
          using le True Inr Some by (fastforce simp: nth_append less_Suc_eq)
        moreover have "\<forall>j<length rs. \<forall>r'. (rs @ [x]) ! j = Inr (Some r') \<longrightarrow> confidence r' < confidence r"
          using le True by (fastforce simp: nth_append)
        ultimately have "overall_ok (rs @ [x]) (Some r, confidence r, int (length rs))"
          using Inr Some by (auto simp: overall_ok_def)
        with True Inr Some st show ?thesis by simp
      qed
    qed
  qed
qed

lemma overall_ok_loop:
  "overall_ok rs (best_overall_loop (List.enumerate 0 rs) (None, 0, - 1))"
proof (induction rs rule: rev_induct)
  case Nil
  show ?case by (simp add: overall_ok_def)
next
  case (snoc x xs)
  then show ?case
    using overall_ok_step [of xs "best_overall_loop (List.enumerate 0 xs) (None, 0, - 1)" x]
    by (simp add: enumerate_append_eq best_overall_loop_append)
qed

lemma champion_positive:
  assumes "fst (process_screenshot_url det cv u n) = Some m"
  shows "0 < confidence m \<and> float_ge (confidence m) (min_confidence det) \<and> url m = u"
proof -
  from process_screenshot_url_Some [OF assms] obtain img
    where "score_image det cv u img = Inr (Some m)" by blast
  from score_image_Some [OF this] show ?thesis by blast
qed

subsection \<open>The best match over all screenshots\<close>

lemma process_multiple_screenshots_loop:
  "\<exists>b hi bi.
     overall_ok (map (\<lambda>u. Inr (fst (process_screenshot_url det cv u n))) urls) (b, hi, bi) \<and>
     fst (process_multiple_screenshots det cv urls n) =
       (case b of
          None \<Rightarrow> None
        | Some b' \<Rightarrow> Some \<lparr>character_name = character_name b', confidence = confidence b',
                           url = url b', screenshot_index = bi\<rparr>)"
proof -
  let ?rs = "map (\<lambda>u. Inr (fst (process_screenshot_url det cv u n))) urls"
  obtain rs n' where g: "gather det cv urls n = (rs, n')" by (cases "gather det cv urls n")
  with gather_results [of det cv urls n] have rs: "rs = ?rs" by simp
  obtain b hi bi where st: "best_overall_loop (List.enumerate 0 ?rs) (None, 0, - 1) = (b, hi, bi)"
    by (cases "best_overall_loop (List.enumerate 0 ?rs) (None, 0, - 1)")
  from overall_ok_loop [of ?rs] st have "overall_ok ?rs (b, hi, bi)" by simp
  moreover from g rs st have "fst (process_multiple_screenshots det cv urls n) =
          (case b of
             None \<Rightarrow> None
           | Some b' \<Rightarrow> Some \<lparr>character_name = character_name b', confidence = confidence b',
                             url = url b', screenshot_index = bi\<rparr>)"
    by (simp add: process_multiple_screenshots_def split: option.splits)
  ultimately show ?thesis by blast
qed

subsection \<open>Running the examples\<close>

lemmas ex_defs = flat_def cv_ex_def det_ex_def net_ex_def
lemmas model_defs = process_multiple_screenshots_def process_screenshot_url_def download_image_def
  session_get_def score_image_def resize_to_1080p_def extract_portrait_from_image_def crop_def
  slice_bounds_def adjust_index_def calculate_similarity_def same_shape_def cv2_resize_def
  cv2_cvtColor_def cv2_matchTemplate_def is_empty_def methods_def np_mean_def

section \<open>Properties of the task runners\<close>

lemma next_call_cases:
  "(faults s = [] \<and> next_call s = (None, s)) \<or>
   (\<exists>f rest. faults s = f # rest \<and> next_call s = (f, s\<lparr>faults := rest\<rparr>))"
  by (cases "faults s") (simp_all add: next_call_def)

lemma next_call_keeps:
  "next_call s = (f, s') \<Longrightarrow>
   entries s' = entries s \<and> counters s' = counters s \<and> queue s' = queue s"
  using next_call_cases [of s] by auto

lemma setex_entries:
  assumes "setex k ttl v s = (out, s')"
  shows "counters s' = counters s \<and> queue s' = queue s \<and>
         (case out of
            Inl e \<Rightarrow> entries s' = entries s
          | Inr u \<Rightarrow> entries s' = (entries s)(k \<mapsto> (ttl, v)))"
proof -
  obtain f s1 where nc: "next_call s = (f, s1)" by (cases "next_call s")
  from next_call_keeps [OF nc] nc assms show ?thesis
    by (cases f) (auto simp: setex_def)
qed

lemma incr_entries:
  assumes "incr k s = (out, s')"
  shows "entries s' = entries s \<and> queue s' = queue s \<and>
         (case out of
            Inl e \<Rightarrow> counters s' = counters s
          | Inr u \<Rightarrow> counters s' =
              (counters s)(k \<mapsto> (case counters s k of None \<Rightarrow> 1 | Some c \<Rightarrow> c + 1)))"
proof -
  obtain f s1 where nc: "next_call s = (f, s1)" by (cases "next_call s")
  from next_call_keeps [OF nc] nc assms show ?thesis
    by (cases f) (auto simp: incr_def)
qed

lemma run_try_entries:
  assumes "run_try det cv now tid cid urls n s = (out, n', s')"
  shows "entries s' = entries s \<or>
         entries s' = (entries s)(''result:'' @ tid \<mapsto>
           (604800, completed_result now tid cid urls (fst (process_screenshots det cv urls n))))"
proof -
  obtain result n1 where p: "process_screenshots det cv urls n = (result, n1)"
    by (cases "process_screenshots det cv urls n")
  let ?resp = "completed_result now tid cid urls result"
  obtain o1 s1 where s1: "setex (''result:'' @ tid) 604800 ?resp s = (o1, s1)"
    by (cases "setex (''result:'' @ tid) 604800 ?resp s")
  obtain o2 s2 where s2: "incr (''stats:completed:'' @ ymd now) s1 = (o2, s2)"
    by (cases "incr (''stats:completed:'' @ ymd now) s1")
  from setex_entries [OF s1] incr_entries [OF s2] assms p s1 s2 show ?thesis
    by (cases o1; cases o2) (auto simp: run_try_def)
qed

lemma run_except_entries:
  assumes "run_except now tid cid urls e s = (out, s')"
  shows "entries s' = entries s \<or>
         entries s' = (entries s)(''result:'' @ tid \<mapsto> (86400, error_result now tid cid urls e))"
proof -
  obtain o1 s1 where s1: "setex (''result:'' @ tid) 86400 (error_result now tid cid urls e) s = (o1, s1)"
    by (cases "setex (''result:'' @ tid) 86400 (error_result now tid cid urls e) s")
  obtain o2 s2 where s2: "incr (''stats:failed:'' @ ymd now) s1 = (o2, s2)"
    by (cases "incr (''stats:failed:'' @ ymd now) s1")
  from setex_entries [OF s1] incr_entries [OF s2] assms s1 s2 show ?thesis
    by (cases o1) (auto simp: run_except_def)
qed

lemma two_writes:
  assumes "m1 = m \<or> m1 = m(key \<mapsto> c)"
    and "m2 = m1 \<or> m2 = m1(key \<mapsto> e)"
    and "m2 k = Some v"
  shows "m k = Some v \<or> (k = key \<and> (v = c \<or> v = e))"
  using assms by (auto split: if_splits)

lemma process_video_screenshots_entries:
  assumes "entries (snd (snd (process_video_screenshots det cv now tid cid urls n s))) k = Some v"
  shows "left_by det cv now tid cid urls n s k v"
proof -
  obtain o1 n1 s1 where t: "run_try det cv now tid cid urls n s = (o1, n1, s1)"
    by (cases "run_try det cv now tid cid urls n s")
  note w1 = run_try_entries [OF t]
  show ?thesis
  proof (cases o1)
    case (Inr r)
    with t assms have "entries s1 k = Some v" by (simp add: process_video_screenshots_def)
    with w1 show ?thesis
      by (auto simp: left_by_def split: if_splits)
  next
    case (Inl e)
    obtain o2 s2 where x: "run_except now tid cid urls e s1 = (o2, s2)"
      by (cases "run_except now tid cid urls e s1")
    with t Inl assms have "entries s2 k = Some v"
      by (simp add: process_video_screenshots_def split: sum.splits)
    with two_writes [OF w1 run_except_entries [OF x], of k v] show ?thesis
      by (auto simp: left_by_def)
  qed
qed

lemma process_task_entries:
  assumes "entries (snd (snd (process_task det cv now t n s))) k = Some v"
  shows "left_by det cv now (task_id t) (clip_id t) (screenshot_urls t) n s k v"
proof -
  let ?tid = "task_id t" and ?cid = "clip_id t" and ?urls = "screenshot_urls t"
  obtain o1 n1 s1 where t: "run_try det cv now ?tid ?cid ?urls n s = (o1, n1, s1)"
    by (cases "run_try det cv now ?tid ?cid ?urls n s")
  note w1 = run_try_entries [OF t]
  show ?thesis
  proof (cases o1)
    case (Inr r)
    with t assms have "entries s1 k = Some v" by (simp add: process_task_def)
    with w1 show ?thesis
      by (auto simp: left_by_def split: if_splits)
  next
    case (Inl e)
    obtain o2 s2 where x: "run_except now ?tid ?cid ?urls e s1 = (o2, s2)"
      by (cases "run_except now ?tid ?cid ?urls e s1")
    with t Inl assms have "entries s2 k = Some v"
      by (simp add: process_task_def split: sum.splits)
    with two_writes [OF w1 run_except_entries [OF x], of k v] show ?thesis
      by (auto simp: left_by_def)
  qed
qed

lemmas store_defs = setex_def incr_def next_call_def

lemmas runner_defs = process_task_def process_video_screenshots_def run_try_def run_except_def
  completed_result_def error_result_def process_screenshots_def

lemma completed_result_consistent: "consistent (completed_result now tid cid urls result)"
  by (cases result) (simp_all add: consistent_def completed_result_def Let_def)

lemma error_result_consistent: "consistent (error_result now tid cid urls e)"
  by (simp add: consistent_def error_result_def)

lemma left_by_consistent:
  assumes "left_by det cv now tid cid urls n s k (ttl, r)"
  shows "entries s k = Some (ttl, r) \<or> consistent r"
  using assms completed_result_consistent error_result_consistent
  by (auto simp: left_by_def)

lemma detect_ex:
  "process_multiple_screenshots det_ex cv_ex [''c'', ''a'', ''b''] net_ex =
     (Some \<lparr>character_name = ''wraith'', confidence = 1, url = ''a'', screenshot_index = 1\<rparr>,
      net_ex\<lparr>requests := [''c'', ''a'', ''b'']\<rparr>)"
  by (simp add: ex_defs model_defs enumerate_eq_zip)

lemmas world_defs = now_ex_def task_ex_def store_ex_def store_down1_def completed_ex_def
  failed_ex_def

lemma run_ex:
  "process_task det_ex cv_ex now_ex task_ex net_ex store_ex =
     (Inr completed_ex,
      net_ex\<lparr>requests := [''c'', ''a'', ''b'']\<rparr>,
      store_ex\<lparr>entries := [''result:t1'' \<mapsto> (604800, completed_ex)],
        counters := [''stats:completed:2026-11-04'' \<mapsto> 1]\<rparr>)"
  by (simp add: detect_ex runner_defs store_defs world_defs Let_def numeral_3_eq_3)

lemma run_down1:
  "process_video_screenshots det_ex cv_ex now_ex ''t1'' ''clip'' [''c'', ''a'', ''b''] net_ex store_down1 =
     (Inl (ConnectionError ''Error 111 connecting to redis:6379. Connection refused.''),
      net_ex\<lparr>requests := [''c'', ''a'', ''b'']\<rparr>,
      store_ex\<lparr>entries := [''result:t1'' \<mapsto> (86400, failed_ex)],
        counters := [''stats:failed:2026-11-04'' \<mapsto> 1]\<rparr>)"
  by (simp add: detect_ex runner_defs store_defs world_defs Let_def numeral_3_eq_3)

subsection \<open>The floor\<close>

lemma best_overall_is_champion:
  assumes "fst (process_multiple_screenshots det cv urls n) = Some m"
  shows "\<exists>i<length urls. \<exists>c.
           fst (process_screenshot_url det cv (urls ! i) n) = Some c \<and>
           m = \<lparr>character_name = character_name c, confidence = confidence c, url = url c,
                screenshot_index = int i\<rparr>"
proof -
  from process_multiple_screenshots_loop [of det cv n urls]
  obtain b hi bi where
    ok: "overall_ok (map (\<lambda>u. Inr (fst (process_screenshot_url det cv u n))) urls) (b, hi, bi)"
    and res: "fst (process_multiple_screenshots det cv urls n) =
          (case b of
             None \<Rightarrow> None
           | Some b' \<Rightarrow> Some \<lparr>character_name = character_name b', confidence = confidence b',
                             url = url b', screenshot_index = bi\<rparr>)"
    by blast
  from assms res obtain w where w: "b = Some w"
    and m: "m = \<lparr>character_name = character_name w, confidence = confidence w,
                   url = url w, screenshot_index = bi\<rparr>"
    by (auto split: option.splits)
  from ok w obtain i where "i < length urls" "bi = int i"
    "fst (process_screenshot_url det cv (urls ! i) n) = Some w"
    by (auto simp: overall_ok_def)
  with m show ?thesis by blast
qed

lemma process_screenshots_floor:
  assumes "fst (process_screenshots det cv urls n) = Some m"
  shows "float_ge (confidence m) (min_confidence det)"
proof -
  from assms have "fst (process_multiple_screenshots det cv urls n) = Some m"
    by (simp add: process_screenshots_def)
  from best_overall_is_champion [OF this] obtain i c where
    "fst (process_screenshot_url det cv (urls ! i) n) = Some c" "confidence m = confidence c"
    by auto
  with champion_positive [of det cv "urls ! i" n c] show ?thesis by simp
qed

lemma completed_result_floor:
  "above_floor det (completed_result now tid cid urls (fst (process_screenshots det cv urls n)))"
proof (cases "fst (process_screenshots det cv urls n)")
  case None
  then show ?thesis by (simp add: above_floor_def completed_result_def)
next
  case (Some m)
  from process_screenshots_floor [OF Some] Some show ?thesis
    by (simp add: above_floor_def completed_result_def Let_def)
qed

lemma error_result_floor: "above_floor det (error_result now tid cid urls e)"
  by (simp add: above_floor_def error_result_def)

lemma left_by_floor:
  assumes "left_by det cv now tid cid urls n s k (ttl, r)"
  shows "entries s k = Some (ttl, r) \<or> above_floor det r"
  using assms completed_result_floor [of det now tid cid urls cv n] error_result_floor [of det now tid cid urls]
  by (auto simp: left_by_def)

subsection \<open>When the store cannot be reached\<close>

lemma next_call_down: "faults s = Some m # rest \<Longrightarrow> next_call s = (Some m, s\<lparr>faults := rest\<rparr>)"
  by (simp add: next_call_def)

lemma next_call_up:
  "goes_through (faults s) \<Longrightarrow> next_call s = (None, s\<lparr>faults := tl (faults s)\<rparr>)"
  by (cases "faults s") (simp_all add: next_call_def goes_through_def)

lemma setex_down:
  "faults s = Some m # rest \<Longrightarrow> setex k ttl v s = (Inl (ConnectionError m), s\<lparr>faults := rest\<rparr>)"
  by (simp add: setex_def next_call_down)

lemma setex_up:
  "goes_through (faults s) \<Longrightarrow>
   setex k ttl v s = (Inr (), s\<lparr>faults := tl (faults s), entries := (entries s)(k \<mapsto> (ttl, v))\<rparr>)"
  by (simp add: setex_def next_call_up)

lemma incr_down:
  "faults s = Some m # rest \<Longrightarrow> incr k s = (Inl (ConnectionError m), s\<lparr>faults := rest\<rparr>)"
  by (simp add: incr_def next_call_down)

lemma incr_up:
  "goes_through (faults s) \<Longrightarrow>
   incr k s = (Inr (), s\<lparr>faults := tl (faults s),
                 counters := (counters s)(k \<mapsto> (case counters s k of None \<Rightarrow> 1 | Some c \<Rightarrow> c + 1))\<rparr>)"
  by (simp add: incr_def next_call_up)

lemma run_try_down:
  assumes "faults s = Some m # rest"
  shows "run_try det cv now tid cid urls n s =
           (Inl (ConnectionError m), snd (process_screenshots det cv urls n), s\<lparr>faults := rest\<rparr>)"
  using assms
  by (cases "process_screenshots det cv urls n") (simp add: run_try_def setex_down)

lemma run_except_down:
  assumes "faults s = Some m # rest"
  shows "run_except now tid cid urls e s = (Inl (ConnectionError m), s\<lparr>faults := rest\<rparr>)"
  using assms by (simp add: run_except_def setex_down)

lemma run_except_up:
  assumes "goes_through (faults s)" and "goes_through (tl (faults s))"
  shows "run_except now tid cid urls e s =
           (Inr (), s\<lparr>faults := tl (tl (faults s)),
                      entries := (entries s)(''result:'' @ tid \<mapsto> (86400, error_result now tid cid urls e)),
                      counters := (counters s)(''stats:failed:'' @ ymd now \<mapsto>
                        (case counters s (''stats:failed:'' @ ymd now) of None \<Rightarrow> 1 | Some c \<Rightarrow> c + 1))\<rparr>)"
  using assms by (simp add: run_except_def setex_up incr_up)

lemma run_try_queue:
  assumes "run_try det cv now tid cid urls n s = (out, n', s')"
  shows "queue s' = queue s"
proof -
  obtain result n1 where p: "process_screenshots det cv urls n = (result, n1)"
    by (cases "process_screenshots det cv urls n")
  let ?resp = "completed_result now tid cid urls result"
  obtain o1 s1 where s1: "setex (''result:'' @ tid) 604800 ?resp s = (o1, s1)"
    by (cases "setex (''result:'' @ tid) 604800 ?resp s")
  obtain o2 s2 where s2: "incr (''stats:completed:'' @ ymd now) s1 = (o2, s2)"
    by (cases "incr (''stats:completed:'' @ ymd now) s1")
  from setex_entries [OF s1] incr_entries [OF s2] assms p s1 s2 show ?thesis
    by (cases o1; cases o2) (auto simp: run_try_def)
qed

lemma run_except_queue:
  assumes "run_except now tid cid urls e s = (out, s')"
  shows "queue s' = queue s"
proof -
  obtain o1 s1 where s1: "setex (''result:'' @ tid) 86400 (error_result now tid cid urls e) s = (o1, s1)"
    by (cases "setex (''result:'' @ tid) 86400 (error_result now tid cid urls e) s")
  obtain o2 s2 where s2: "incr (''stats:failed:'' @ ymd now) s1 = (o2, s2)"
    by (cases "incr (''stats:failed:'' @ ymd now) s1")
  from setex_entries [OF s1] incr_entries [OF s2] assms s1 s2 show ?thesis
    by (cases o1) (auto simp: run_except_def)
qed

lemma process_task_queue: "queue (snd (snd (process_task det cv now t n s))) = queue s"
proof -
  let ?tid = "task_id t" and ?cid = "clip_id t" and ?urls = "screenshot_urls t"
  obtain o1 n1 s1 where t: "run_try det cv now ?tid ?cid ?urls n s = (o1, n1, s1)"
    by (cases "run_try det cv now ?tid ?cid ?urls n s")
  note q1 = run_try_queue [OF t]
  show ?thesis
  proof (cases o1)
    case (Inr r)
    with t q1 show ?thesis by (simp add: process_task_def)
  next
    case (Inl e)
    obtain o2 s2 where x: "run_except now ?tid ?cid ?urls e s1 = (o2, s2)"
      by (cases "run_except now ?tid ?cid ?urls e s1")
    from run_except_queue [OF x] q1 t Inl x show ?thesis
      by (cases o2) (simp_all add: process_task_def)
  qed
qed

lemma main_iteration_queue:
  assumes "goes_through (faults s)"
  shows "queue (snd (main_iteration det cv now n s)) = butlast (queue s)"
proof (cases "queue s = []")
  case True
  with assms show ?thesis by (simp add: main_iteration_def brpop_def next_call_up)
next
  case False
  let ?s' = "s\<lparr>faults := tl (faults s), queue := butlast (queue s)\<rparr>"
  obtain r n' s'' where p: "process_task det cv now (last (queue s)) n ?s' = (r, n', s'')"
    by (cases "process_task det cv now (last (queue s)) n ?s'")
  with process_task_queue [of det cv now "last (queue s)" n ?s'] have "queue s'' = butlast (queue s)"
    by simp
  with False assms p show ?thesis by (simp add: main_iteration_def brpop_def next_call_up)
qed

subsection \<open>URLs that fail\<close>

lemma url_fails_None:
  assumes "url_fails det cv n u"
  shows "fst (process_screenshot_url det cv u n) = None"
  using assms
  by (auto simp: url_fails_def process_screenshot_url_def download_image_def session_get_def
        score_image_def split: http_outcome.splits option.splits sum.splits if_splits)

lemma best_overall_loop_skip:
  assumes "\<forall>u \<in> set us. \<not> P u \<longrightarrow> f u = None"
  shows "fst (best_overall_loop (List.enumerate k (map (\<lambda>u. Inr (f u)) us)) (b, hi, bi)) =
         fst (best_overall_loop (List.enumerate k' (map (\<lambda>u. Inr (f u)) (filter P us))) (b, hi, bi'))"
  using assms
proof (induction us arbitrary: k k' b hi bi bi')
  case Nil
  show ?case by simp
next
  case (Cons u us)
  from Cons.prems have rest: "\<forall>u \<in> set us. \<not> P u \<longrightarrow> f u = None" by simp
  show ?case
  proof (cases "f u")
    case None
    with Cons.IH [OF rest, of "Suc k" b hi bi "Suc k'" bi'] Cons.IH [OF rest, of "Suc k" b hi bi k' bi']
    show ?thesis by simp
  next
    case (Some r)
    with Cons.prems have "P u" by auto
    with Some Cons.IH [OF rest, of "Suc k" "Some r" "confidence r" "int k" "Suc k'" "int k'"]
      Cons.IH [OF rest, of "Suc k" b hi bi "Suc k'" bi']
    show ?thesis by simp
  qed
qed

lemma process_multiple_screenshots_net:
  "snd (process_multiple_screenshots det cv urls n) = n\<lparr>requests := requests n @ urls\<rparr>"
proof -
  obtain rs n' where g: "gather det cv urls n = (rs, n')" by (cases "gather det cv urls n")
  with gather_net [of det cv urls n] have "n' = n\<lparr>requests := requests n @ urls\<rparr>" by simp
  with g show ?thesis
    by (simp add: process_multiple_screenshots_def split: prod.splits option.splits)
qed

lemma process_multiple_screenshots_fields:
  "map_option character_name (fst (process_multiple_screenshots det cv urls n)) =
     map_option character_name (fst (best_overall_loop
       (List.enumerate 0 (map (\<lambda>u. Inr (fst (process_screenshot_url det cv u n))) urls)) (None, 0, - 1))) \<and>
   map_option confidence (fst (process_multiple_screenshots det cv urls n)) =
     map_option confidence (fst (best_overall_loop
       (List.enumerate 0 (map (\<lambda>u. Inr (fst (process_screenshot_url det cv u n))) urls)) (None, 0, - 1))) \<and>
   map_option url (fst (process_multiple_screenshots det cv urls n)) =
     map_option url (fst (best_overall_loop
       (List.enumerate 0 (map (\<lambda>u. Inr (fst (process_screenshot_url det cv u n))) urls)) (None, 0, - 1)))"
proof -
  obtain rs n' where g: "gather det cv urls n = (rs, n')" by (cases "gather det cv urls n")
  with gather_results [of det cv urls n]
  have rs: "rs = map (\<lambda>u. Inr (fst (process_screenshot_url det cv u n))) urls" by simp
  obtain b hi bi where st: "best_overall_loop (List.enumerate 0 rs) (None, 0, - 1) = (b, hi, bi)"
    by (cases "best_overall_loop (List.enumerate 0 rs) (None, 0, - 1)")
  from g st have "fst (process_multiple_screenshots det cv urls n) =
      (case b of
         None \<Rightarrow> None
       | Some b' \<Rightarrow> Some \<lparr>character_name = character_name b', confidence = confidence b',
                         url = url b', screenshot_index = bi\<rparr>)"
    by (simp add: process_multiple_screenshots_def split: option.splits)
  with st rs show ?thesis by (cases b) simp_all
qed

lemma run_try_up:
  assumes "goes_through (faults s)" and "goes_through (tl (faults s))"
  shows "fst (run_try det cv now tid cid urls n s) =
           Inr (completed_result now tid cid urls (fst (process_screenshots det cv urls n)))"
  using assms
  by (cases "process_screenshots det cv urls n") (simp add: run_try_def setex_up incr_up Let_def)

section \<open>Properties of the frame normaliser\<close>


lemma adjust_index_inside: "0 \<le> i \<Longrightarrow> i \<le> int n \<Longrightarrow> adjust_index i n = nat i"
  by (auto simp: adjust_index_def Let_def)

lemma crop_inside:
  assumes "0 \<le> x" "0 \<le> y" "0 \<le> w" "0 \<le> h"
    and "y + h \<le> int (height img)" "x + w \<le> int (width img)"
  shows "crop img y (y + h) x (x + w) =
           \<lparr>height = nat h, width = nat w, pix = (\<lambda>i j. pix img (nat y + i) (nat x + j))\<rparr>"
proof -
  from assms have "adjust_index y (height img) = nat y" "adjust_index (y + h) (height img) = nat (y + h)"
    "adjust_index x (width img) = nat x" "adjust_index (x + w) (width img) = nat (x + w)"
    by (simp_all add: adjust_index_inside)
  moreover from assms have "nat (y + h) - nat y = nat h" "nat (x + w) - nat x = nat w" by linarith+
  ultimately show ?thesis by (simp add: crop_def slice_bounds_def)
qed

section \<open>Properties of the scorer\<close>

lemma method_scores_same_shape:
  assumes "\<not> is_empty g1" and "same_shape g1 g2"
  shows "method_scores cv g1 g2 methods [] =
           Inr [template_score cv TM_CCOEFF_NORMED g1 g2,
                template_score cv TM_CCORR_NORMED g1 g2,
                1 - template_score cv TM_SQDIFF_NORMED g1 g2]"
proof -
  from assms have "\<And>m. cv2_matchTemplate cv g1 g2 m = Inr (template_score cv m g1 g2)"
    by (simp add: cv2_matchTemplate_def is_empty_def same_shape_def)
  then show ?thesis by (simp add: methods_def)
qed

section \<open>Properties of the configuration\<close>








section \<open>The claims\<close>

text \<open>
  C4. \<open>process_multiple_screenshots\<close> returns the champion of highest confidence among
  the champions of the URLs, taken in the order of the input: the match returned is the
  champion of the URL at \<open>screenshot_index\<close>, no champion has a higher confidence, and
  every champion of an earlier URL has a strictly lower one, so that of two equal
  champions the one of lower index wins. It returns nothing only when no URL has a
  champion.
\<close>

theorem process_multiple_screenshots_first_highest:
  "case fst (process_multiple_screenshots det cv urls n) of
     None \<Rightarrow>
       (\<forall>j<length urls.
          fst (process_screenshot_url det cv (urls ! j) n) = None)
   | Some m \<Rightarrow>
       (\<exists>i<length urls. \<exists>c.
          screenshot_index m = int i \<and>
          fst (process_screenshot_url det cv (urls ! i) n) = Some c \<and>
          character_name m = character_name c \<and> confidence m = confidence c \<and> url m = url c \<and>
          (\<forall>j<length urls. \<forall>c'.
             fst (process_screenshot_url det cv (urls ! j) n) = Some c' \<longrightarrow>
             confidence c' \<le> confidence c) \<and>
          (\<forall>j<i. \<forall>c'.
             fst (process_screenshot_url det cv (urls ! j) n) = Some c' \<longrightarrow>
             confidence c' < confidence c))"
proof -
  let ?champ = "\<lambda>u. fst (process_screenshot_url det cv u n)"
  let ?rs = "map (\<lambda>u. Inr (?champ u)) urls"
  from process_multiple_screenshots_loop [of det cv n urls]
  obtain b hi bi where ok: "overall_ok ?rs (b, hi, bi)"
    and res: "fst (process_multiple_screenshots det cv urls n) =
          (case b of
             None \<Rightarrow> None
           | Some b' \<Rightarrow> Some \<lparr>character_name = character_name b', confidence = confidence b',
                             url = url b', screenshot_index = bi\<rparr>)"
    by blast
  from ok have le: "\<And>j r. j < length urls \<Longrightarrow> ?champ (urls ! j) = Some r \<Longrightarrow>
      confidence r \<le> hi"
    by (simp add: overall_ok_def)
  show ?thesis
  proof (cases b)
    case None
    with ok have hi: "hi = 0" by (simp add: overall_ok_def)
    have "?champ (urls ! j) = None" if j: "j < length urls" for j
    proof (cases "?champ (urls ! j)")
      case None
      then show ?thesis .
    next
      case (Some r)
      from le [OF j Some] hi have "confidence r \<le> 0" by simp
      moreover from champion_positive [OF Some] have "0 < confidence r" by simp
      ultimately show ?thesis by simp
    qed
    with None res show ?thesis by simp
  next
    case (Some w)
    with ok obtain i where i: "i < length urls" "bi = int i"
        "?champ (urls ! i) = Some w"
        and before: "\<forall>j<i. \<forall>r. ?champ (urls ! j) = Some r \<longrightarrow> confidence r < confidence w"
        and hi: "hi = confidence w"
      by (auto simp: overall_ok_def)
    from le hi have all: "\<forall>j<length urls. \<forall>c'.
             ?champ (urls ! j) = Some c' \<longrightarrow> confidence c' \<le> confidence w"
      by simp
    from i before all have "\<exists>i<length urls. \<exists>c.
          bi = int i \<and> ?champ (urls ! i) = Some c \<and>
          character_name w = character_name c \<and> confidence w = confidence c \<and> url w = url c \<and>
          (\<forall>j<length urls. \<forall>c'.
             ?champ (urls ! j) = Some c' \<longrightarrow> confidence c' \<le> confidence c) \<and>
          (\<forall>j<i. \<forall>c'. ?champ (urls ! j) = Some c' \<longrightarrow> confidence c' < confidence c)"
      by blast
    with Some res show ?thesis by simp
  qed
qed

text \<open>
  Screenshots \<open>a\<close> and \<open>b\<close> both have a champion of confidence 1, and \<open>c\<close> one of
  confidence one half; of \<open>[c, a, b]\<close> the match returned is that of \<open>a\<close>, at index 1.
\<close>

theorem process_multiple_screenshots_first_highest_witness:
  "fst (process_multiple_screenshots det_ex cv_ex [''c'', ''a'', ''b''] net_ex) =
     Some \<lparr>character_name = ''wraith'', confidence = 1, url = ''a'', screenshot_index = 1\<rparr> \<and>
   fst (process_screenshot_url det_ex cv_ex ''a'' net_ex) =
     Some \<lparr>character_name = ''wraith'', confidence = 1, url = ''a''\<rparr> \<and>
   fst (process_screenshot_url det_ex cv_ex ''b'' net_ex) =
     Some \<lparr>character_name = ''bangalore'', confidence = 1, url = ''b''\<rparr> \<and>
   (\<exists>i<length [''c'', ''a'', ''b'']. \<exists>c.
      (1::int) = int i \<and>
      fst (process_screenshot_url det_ex cv_ex ([''c'', ''a'', ''b''] ! i) net_ex) = Some c \<and>
      ''wraith'' = character_name c \<and> 1 = confidence c \<and> ''a'' = url c \<and>
      (\<forall>j<length [''c'', ''a'', ''b'']. \<forall>c'.
         fst (process_screenshot_url det_ex cv_ex ([''c'', ''a'', ''b''] ! j) net_ex) = Some c' \<longrightarrow>
         confidence c' \<le> confidence c) \<and>
      (\<forall>j<i. \<forall>c'.
         fst (process_screenshot_url det_ex cv_ex ([''c'', ''a'', ''b''] ! j) net_ex) = Some c' \<longrightarrow>
         confidence c' < confidence c))"
proof -
  have run: "fst (process_multiple_screenshots det_ex cv_ex [''c'', ''a'', ''b''] net_ex) =
     Some \<lparr>character_name = ''wraith'', confidence = 1, url = ''a'', screenshot_index = 1\<rparr>"
    by (simp add: ex_defs model_defs enumerate_eq_zip)
  have a: "fst (process_screenshot_url det_ex cv_ex ''a'' net_ex) =
     Some \<lparr>character_name = ''wraith'', confidence = 1, url = ''a''\<rparr>"
    by (simp add: ex_defs model_defs)
  have b: "fst (process_screenshot_url det_ex cv_ex ''b'' net_ex) =
     Some \<lparr>character_name = ''bangalore'', confidence = 1, url = ''b''\<rparr>"
    by (simp add: ex_defs model_defs)
  from process_multiple_screenshots_first_highest
         [where det = det_ex and cv = cv_ex and urls = "[''c'', ''a'', ''b'']" and n = net_ex]
  have "\<exists>i<length [''c'', ''a'', ''b'']. \<exists>c.
      (1::int) = int i \<and>
      fst (process_screenshot_url det_ex cv_ex ([''c'', ''a'', ''b''] ! i) net_ex) = Some c \<and>
      ''wraith'' = character_name c \<and> 1 = confidence c \<and> ''a'' = url c \<and>
      (\<forall>j<length [''c'', ''a'', ''b'']. \<forall>c'.
         fst (process_screenshot_url det_ex cv_ex ([''c'', ''a'', ''b''] ! j) net_ex) = Some c' \<longrightarrow>
         confidence c' \<le> confidence c) \<and>
      (\<forall>j<i. \<forall>c'.
         fst (process_screenshot_url det_ex cv_ex ([''c'', ''a'', ''b''] ! j) net_ex) = Some c' \<longrightarrow>
         confidence c' < confidence c)"
    unfolding run by simp
  with run a b show ?thesis by blast
qed

text \<open>
  C10. Every match returned by \<open>process_screenshot_url\<close> or by
  \<open>process_multiple_screenshots\<close> has a confidence above zero, and a screenshot on which
  no reference scores above zero has no champion, whatever the floor \<open>min_confidence\<close> is.
\<close>

theorem returned_confidence_positive:
  "(\<forall>m. fst (process_screenshot_url det cv u n) = Some m \<longrightarrow> 0 < confidence m) \<and>
   (\<forall>m. fst (process_multiple_screenshots det cv urls n) = Some m \<longrightarrow> 0 < confidence m) \<and>
   (\<forall>img img' portrait.
      fst (download_image cv u n) = Some img \<longrightarrow>
      resize_to_1080p cv img = Inr img' \<longrightarrow>
      extract_portrait_from_image det img' = Inr portrait \<longrightarrow>
      (\<forall>(name, ref) \<in> set (reference_portraits det).
         \<forall>c. calculate_similarity cv portrait ref = Inr c \<longrightarrow> c \<le> 0) \<longrightarrow>
      fst (process_screenshot_url det cv u n) = None)"
proof (intro conjI allI impI)
  fix m
  assume "fst (process_screenshot_url det cv u n) = Some m"
  from champion_positive [OF this] show "0 < confidence m" by simp
next
  fix m
  assume some: "fst (process_multiple_screenshots det cv urls n) = Some m"
  from process_multiple_screenshots_loop [of det cv n urls]
  obtain b hi bi where
    ok: "overall_ok (map (\<lambda>u. Inr (fst (process_screenshot_url det cv u n))) urls) (b, hi, bi)"
    and res: "fst (process_multiple_screenshots det cv urls n) =
          (case b of
             None \<Rightarrow> None
           | Some b' \<Rightarrow> Some \<lparr>character_name = character_name b', confidence = confidence b',
                             url = url b', screenshot_index = bi\<rparr>)"
    by blast
  from some res obtain w where w: "b = Some w" "confidence m = confidence w"
    by (auto split: option.splits)
  with ok obtain i where "i < length urls"
    "fst (process_screenshot_url det cv (urls ! i) n) = Some w"
    by (auto simp: overall_ok_def)
  from champion_positive [OF this(2)] w show "0 < confidence m" by simp
next
  fix img img' portrait
  assume dl: "fst (download_image cv u n) = Some img"
    and rs: "resize_to_1080p cv img = Inr img'"
    and ex: "extract_portrait_from_image det img' = Inr portrait"
    and low: "\<forall>(name, ref) \<in> set (reference_portraits det).
         \<forall>c. calculate_similarity cv portrait ref = Inr c \<longrightarrow> c \<le> 0"
  show "fst (process_screenshot_url det cv u n) = None"
  proof (cases "fst (process_screenshot_url det cv u n)")
    case None
    then show ?thesis .
  next
    case (Some m)
    from process_screenshot_url_Some [OF Some] dl
    have "score_image det cv u img = Inr (Some m)" by auto
    from score_image_Some [OF this] rs ex obtain ref where
      "0 < confidence m" "(character_name m, ref) \<in> set (reference_portraits det)"
      "calculate_similarity cv portrait ref = Inr (confidence m)"
      by auto
    with low show ?thesis by fastforce
  qed
qed

text \<open>
  With the floor at \<open>-1\<close> and every score at zero, screenshot \<open>a\<close> has no champion.
\<close>

theorem returned_confidence_positive_witness:
  "fst (process_screenshot_url det_ex cv_ex ''a'' net_ex) =
     Some \<lparr>character_name = ''wraith'', confidence = 1, url = ''a''\<rparr> \<and>
   (0::real) < 1 \<and>
   fst (process_multiple_screenshots det_ex cv_ex [''c'', ''a''] net_ex) =
     Some \<lparr>character_name = ''wraith'', confidence = 1, url = ''a'', screenshot_index = 1\<rparr> \<and>
   min_confidence det_low = Finite (- 1) \<and>
   fst (download_image cv_low ''a'' net_ex) = Some (flat 1080 1920 10) \<and>
   resize_to_1080p cv_low (flat 1080 1920 10) = Inr (flat 1080 1920 10) \<and>
   extract_portrait_from_image det_low (flat 1080 1920 10) = Inr (flat 66 77 10) \<and>
   calculate_similarity cv_low (flat 66 77 10) (flat 66 77 10) = Inr 0 \<and>
   calculate_similarity cv_low (flat 66 77 10) (flat 66 77 20) = Inr 0 \<and>
   fst (process_screenshot_url det_low cv_low ''a'' net_ex) = None"
proof -
  have a: "fst (process_screenshot_url det_ex cv_ex ''a'' net_ex) =
     Some \<lparr>character_name = ''wraith'', confidence = 1, url = ''a''\<rparr>"
    by (simp add: ex_defs model_defs)
  have m: "fst (process_multiple_screenshots det_ex cv_ex [''c'', ''a''] net_ex) =
     Some \<lparr>character_name = ''wraith'', confidence = 1, url = ''a'', screenshot_index = 1\<rparr>"
    by (simp add: ex_defs model_defs enumerate_eq_zip)
  have dl: "fst (download_image cv_low ''a'' net_ex) = Some (flat 1080 1920 10)"
    by (simp add: cv_low_def ex_defs model_defs)
  have rs: "resize_to_1080p cv_low (flat 1080 1920 10) = Inr (flat 1080 1920 10)"
    by (simp add: ex_defs model_defs)
  have ex: "extract_portrait_from_image det_low (flat 1080 1920 10) = Inr (flat 66 77 10)"
    by (simp add: det_low_def ex_defs model_defs)
  have s1: "calculate_similarity cv_low (flat 66 77 10) (flat 66 77 10) = Inr 0"
    by (simp add: cv_low_def ex_defs model_defs)
  have s2: "calculate_similarity cv_low (flat 66 77 10) (flat 66 77 20) = Inr 0"
    by (simp add: cv_low_def ex_defs model_defs)
  have low: "\<forall>(name, ref) \<in> set (reference_portraits det_low).
         \<forall>c. calculate_similarity cv_low (flat 66 77 10) ref = Inr c \<longrightarrow> c \<le> 0"
    using s1 s2 by (simp add: det_low_def det_ex_def)
  from returned_confidence_positive
         [where det = det_ex and cv = cv_ex and u = "''a''" and n = net_ex and urls = "[''c'', ''a'']"] a m
  have pos: "(0::real) < 1" by simp
  from returned_confidence_positive
         [where det = det_low and cv = cv_low and u = "''a''" and n = net_ex and urls = "[]"] dl rs ex low
  have "fst (process_screenshot_url det_low cv_low ''a'' net_ex) = None" by blast
  with a m dl rs ex s1 s2 pos show ?thesis by (simp add: det_low_def)
qed

text \<open>
  C2. In every record that \<open>process_video_screenshots\<close> or \<open>process_task\<close> leaves in
  the store, \<open>BestOverall\<close> is null exactly when \<open>Detections\<close> is empty, exactly when
  \<open>SuccessfulDetections\<close> is 0; and \<open>BestOverall\<close> is present exactly when
  \<open>Detections\<close> is not empty, exactly when \<open>SuccessfulDetections\<close> is 1.
\<close>

theorem persisted_result_consistent:
  "(\<forall>k ttl r.
      entries (snd (snd (process_video_screenshots det cv now tid cid urls n s))) k = Some (ttl, r) \<longrightarrow>
      entries s k = Some (ttl, r) \<or> consistent r) \<and>
   (\<forall>k ttl r.
      entries (snd (snd (process_task det cv now t n s))) k = Some (ttl, r) \<longrightarrow>
      entries s k = Some (ttl, r) \<or> consistent r)"
proof (intro conjI allI impI)
  fix k ttl r
  assume "entries (snd (snd (process_video_screenshots det cv now tid cid urls n s))) k = Some (ttl, r)"
  then have "left_by det cv now tid cid urls n s k (ttl, r)"
    by (rule process_video_screenshots_entries)
  then show "entries s k = Some (ttl, r) \<or> consistent r" by (rule left_by_consistent)
next
  fix k ttl r
  assume "entries (snd (snd (process_task det cv now t n s))) k = Some (ttl, r)"
  then have "left_by det cv now (task_id t) (clip_id t) (screenshot_urls t) n s k (ttl, r)"
    by (rule process_task_entries)
  then show "entries s k = Some (ttl, r) \<or> consistent r" by (rule left_by_consistent)
qed

text \<open>
  The record of a completed run holds one detection, and the record of a run whose first
  write failed holds none.
\<close>

theorem persisted_result_consistent_witness:
  "entries (snd (snd (process_task det_ex cv_ex now_ex task_ex net_ex store_ex))) ''result:t1'' =
     Some (604800, completed_ex) \<and>
   entries store_ex ''result:t1'' = None \<and>
   consistent completed_ex \<and>
   BestOverall completed_ex \<noteq> None \<and> Detections completed_ex \<noteq> [] \<and>
   SuccessfulDetections completed_ex = 1 \<and>
   entries (snd (snd (process_video_screenshots det_ex cv_ex now_ex ''t1'' ''clip''
                        [''c'', ''a'', ''b''] net_ex store_down1))) ''result:t1'' =
     Some (86400, failed_ex) \<and>
   entries store_down1 ''result:t1'' = None \<and>
   consistent failed_ex \<and>
   BestOverall failed_ex = None \<and> Detections failed_ex = [] \<and>
   SuccessfulDetections failed_ex = 0"
proof -
  note inst = persisted_result_consistent
    [where det = det_ex and cv = cv_ex and now = now_ex and n = net_ex and t = task_ex
       and tid = "''t1''" and cid = "''clip''" and urls = "[''c'', ''a'', ''b'']"]
  have e1: "entries store_ex ''result:t1'' = None" by (simp add: store_ex_def)
  have e2: "entries store_down1 ''result:t1'' = None" by (simp add: store_down1_def store_ex_def)
  have w1: "entries (snd (snd (process_task det_ex cv_ex now_ex task_ex net_ex store_ex))) ''result:t1'' =
     Some (604800, completed_ex)"
    by (simp add: run_ex)
  have w2: "entries (snd (snd (process_video_screenshots det_ex cv_ex now_ex ''t1'' ''clip''
                        [''c'', ''a'', ''b''] net_ex store_down1))) ''result:t1'' =
     Some (86400, failed_ex)"
    by (simp add: run_down1)
  from inst [where s = store_ex] w1 e1 have c1: "consistent completed_ex"
    by (metis option.distinct(1))
  from inst [where s = store_down1] w2 e2 have c2: "consistent failed_ex"
    by (metis option.distinct(1))
  have f1: "BestOverall completed_ex \<noteq> None \<and> Detections completed_ex \<noteq> [] \<and>
      SuccessfulDetections completed_ex = 1"
    by (simp add: completed_ex_def)
  have f2: "BestOverall failed_ex = None \<and> Detections failed_ex = [] \<and>
      SuccessfulDetections failed_ex = 0"
    by (simp add: failed_ex_def)
  from w1 e1 c1 w2 e2 c2 f1 f2 show ?thesis by blast
qed

text \<open>
  C3. A match returned by \<open>process_screenshot_url\<close> or by
  \<open>process_multiple_screenshots\<close> has a confidence that is \<open>>=\<close> the configured
  \<open>min_confidence\<close>, and so has every detection, under \<open>BestOverall\<close> or in
  \<open>Detections\<close>, of every record that a runner leaves in the store: a candidate whose
  score is below the floor appears in neither.
\<close>

theorem persisted_confidence_floor:
  "(\<forall>m. fst (process_screenshot_url det cv u n) = Some m \<longrightarrow>
       float_ge (confidence m) (min_confidence det)) \<and>
   (\<forall>m. fst (process_multiple_screenshots det cv urls n) = Some m \<longrightarrow>
       float_ge (confidence m) (min_confidence det)) \<and>
   (\<forall>k ttl r.
      entries (snd (snd (process_video_screenshots det cv now tid cid urls n s))) k = Some (ttl, r) \<longrightarrow>
      entries s k = Some (ttl, r) \<or> above_floor det r) \<and>
   (\<forall>k ttl r.
      entries (snd (snd (process_task det cv now t n s))) k = Some (ttl, r) \<longrightarrow>
      entries s k = Some (ttl, r) \<or> above_floor det r)"
proof (intro conjI allI impI)
  fix m
  assume "fst (process_screenshot_url det cv u n) = Some m"
  from champion_positive [OF this] show "float_ge (confidence m) (min_confidence det)" by simp
next
  fix m
  assume "fst (process_multiple_screenshots det cv urls n) = Some m"
  then have "fst (process_screenshots det cv urls n) = Some m"
    by (simp add: process_screenshots_def)
  then show "float_ge (confidence m) (min_confidence det)" by (rule process_screenshots_floor)
next
  fix k ttl r
  assume "entries (snd (snd (process_video_screenshots det cv now tid cid urls n s))) k = Some (ttl, r)"
  then have "left_by det cv now tid cid urls n s k (ttl, r)"
    by (rule process_video_screenshots_entries)
  then show "entries s k = Some (ttl, r) \<or> above_floor det r" by (rule left_by_floor)
next
  fix k ttl r
  assume "entries (snd (snd (process_task det cv now t n s))) k = Some (ttl, r)"
  then have "left_by det cv now (task_id t) (clip_id t) (screenshot_urls t) n s k (ttl, r)"
    by (rule process_task_entries)
  then show "entries s k = Some (ttl, r) \<or> above_floor det r" by (rule left_by_floor)
qed

text \<open>
  With the floor at three quarters, screenshot \<open>a\<close> (score 1) keeps its champion and
  screenshot \<open>c\<close> (score one half on both references) has none; the records of the two
  example runs are above the floor.
\<close>

theorem persisted_confidence_floor_witness:
  "fst (process_screenshot_url det_strict cv_ex ''a'' net_ex) =
     Some \<lparr>character_name = ''wraith'', confidence = 1, url = ''a''\<rparr> \<and>
   float_ge 1 (min_confidence det_strict) \<and>
   calculate_similarity cv_ex (flat 66 77 30) (flat 66 77 10) = Inr (1 / 2) \<and>
   calculate_similarity cv_ex (flat 66 77 30) (flat 66 77 20) = Inr (1 / 2) \<and>
   \<not> float_ge (1 / 2) (min_confidence det_strict) \<and>
   fst (process_screenshot_url det_strict cv_ex ''c'' net_ex) = None \<and>
   fst (process_multiple_screenshots det_ex cv_ex [''c'', ''a'', ''b''] net_ex) =
     Some \<lparr>character_name = ''wraith'', confidence = 1, url = ''a'', screenshot_index = 1\<rparr> \<and>
   float_ge 1 (min_confidence det_ex) \<and>
   entries (snd (snd (process_task det_ex cv_ex now_ex task_ex net_ex store_ex))) ''result:t1'' =
     Some (604800, completed_ex) \<and>
   entries store_ex ''result:t1'' = None \<and>
   above_floor det_ex completed_ex \<and>
   entries (snd (snd (process_video_screenshots det_ex cv_ex now_ex ''t1'' ''clip''
                        [''c'', ''a'', ''b''] net_ex store_down1))) ''result:t1'' =
     Some (86400, failed_ex) \<and>
   entries store_down1 ''result:t1'' = None \<and>
   above_floor det_ex failed_ex"
proof -
  note inst = persisted_confidence_floor
    [where cv = cv_ex and now = now_ex and n = net_ex and t = task_ex
       and tid = "''t1''" and cid = "''clip''" and urls = "[''c'', ''a'', ''b'']"]
  have a: "fst (process_screenshot_url det_strict cv_ex ''a'' net_ex) =
     Some \<lparr>character_name = ''wraith'', confidence = 1, url = ''a''\<rparr>"
    by (simp add: det_strict_def ex_defs model_defs)
  from inst [where det = det_strict and u = "''a''" and s = store_ex] a
  have fa: "float_ge 1 (min_confidence det_strict)" by simp
  have s1: "calculate_similarity cv_ex (flat 66 77 30) (flat 66 77 10) = Inr (1 / 2)"
    by (simp add: ex_defs model_defs)
  have s2: "calculate_similarity cv_ex (flat 66 77 30) (flat 66 77 20) = Inr (1 / 2)"
    by (simp add: ex_defs model_defs)
  have below: "\<not> float_ge (1 / 2) (min_confidence det_strict)"
    by (simp add: det_strict_def)
  have c: "fst (process_screenshot_url det_strict cv_ex ''c'' net_ex) = None"
    by (simp add: det_strict_def ex_defs model_defs)
  have m: "fst (process_multiple_screenshots det_ex cv_ex [''c'', ''a'', ''b''] net_ex) =
     Some \<lparr>character_name = ''wraith'', confidence = 1, url = ''a'', screenshot_index = 1\<rparr>"
    by (simp add: detect_ex)
  from inst [where det = det_ex and u = "''a''" and s = store_ex] m
  have fm: "float_ge 1 (min_confidence det_ex)" by simp
  have e1: "entries store_ex ''result:t1'' = None" by (simp add: store_ex_def)
  have e2: "entries store_down1 ''result:t1'' = None" by (simp add: store_down1_def store_ex_def)
  have w1: "entries (snd (snd (process_task det_ex cv_ex now_ex task_ex net_ex store_ex))) ''result:t1'' =
     Some (604800, completed_ex)"
    by (simp add: run_ex)
  have w2: "entries (snd (snd (process_video_screenshots det_ex cv_ex now_ex ''t1'' ''clip''
                        [''c'', ''a'', ''b''] net_ex store_down1))) ''result:t1'' =
     Some (86400, failed_ex)"
    by (simp add: run_down1)
  from inst [where det = det_ex and u = "''a''" and s = store_ex] w1 e1
  have c1: "above_floor det_ex completed_ex"
    by (metis option.distinct(1))
  from inst [where det = det_ex and u = "''a''" and s = store_down1] w2 e2
  have c2: "above_floor det_ex failed_ex"
    by (metis option.distinct(1))
  from a fa s1 s2 below c m fm w1 e1 c1 w2 e2 c2 show ?thesis by blast
qed

text \<open>
  C1, as the runners behave. Let the first write of the result fail because the store
  cannot be reached. If the store can be reached again for the two calls of the handler,
  the record \<open>error_result\<close>, with \<open>Status\<close> failed and the text of the connection error
  under \<open>Error\<close>, is written under \<open>result:<task_id>\<close> for 86400 seconds and the counter
  \<open>stats:failed:<date>\<close> goes up by one; \<open>process_video_screenshots\<close> then raises the
  error again, whereas \<open>process_task\<close> returns the record. If the store still cannot be
  reached when the handler writes, nothing is written, no counter moves, and the
  connection error of the handler leaves the runner. The loop of \<open>main\<close> never puts a
  task back on the queue.
\<close>

theorem store_unreachable_on_first_write:
  assumes "faults s = Some m # rest"
  shows
  "(goes_through rest \<and> goes_through (tl rest) \<longrightarrow>
      (let e = ConnectionError m;
           stat = ''stats:failed:'' @ ymd now;
           s' = s\<lparr>faults := tl (tl rest),
                   entries := (entries s)(''result:'' @ tid \<mapsto> (86400, error_result now tid cid urls e)),
                   counters := (counters s)(stat \<mapsto>
                     (case counters s stat of None \<Rightarrow> 1 | Some c \<Rightarrow> c + 1))\<rparr>
       in process_video_screenshots det cv now tid cid urls n s =
            (Inl e, snd (process_screenshots det cv urls n), s') \<and>
          process_task det cv now \<lparr>task_id = tid, clip_id = cid, screenshot_urls = urls\<rparr> n s =
            (Inr (error_result now tid cid urls e), snd (process_screenshots det cv urls n), s') \<and>
          Status (error_result now tid cid urls e) = ''failed'' \<and>
          Error (error_result now tid cid urls e) = Some m)) \<and>
   (\<forall>m' rest'. rest = Some m' # rest' \<longrightarrow>
      process_video_screenshots det cv now tid cid urls n s =
        (Inl (ConnectionError m'), snd (process_screenshots det cv urls n), s\<lparr>faults := rest'\<rparr>) \<and>
      process_task det cv now \<lparr>task_id = tid, clip_id = cid, screenshot_urls = urls\<rparr> n s =
        (Inl (ConnectionError m'), snd (process_screenshots det cv urls n), s\<lparr>faults := rest'\<rparr>)) \<and>
   (\<forall>s0. goes_through (faults s0) \<longrightarrow>
      queue (snd (main_iteration det cv now n s0)) = butlast (queue s0))"
proof -
  have down: "process_video_screenshots det cv now tid cid urls n s =
        (Inl (ConnectionError m'), snd (process_screenshots det cv urls n), s\<lparr>faults := rest'\<rparr>) \<and>
      process_task det cv now \<lparr>task_id = tid, clip_id = cid, screenshot_urls = urls\<rparr> n s =
        (Inl (ConnectionError m'), snd (process_screenshots det cv urls n), s\<lparr>faults := rest'\<rparr>)"
    if rest: "rest = Some m' # rest'" for m' rest'
  proof -
    from rest have "faults (s\<lparr>faults := rest\<rparr>) = Some m' # rest'" by simp
    from run_except_down [OF this, of now tid cid urls "ConnectionError m"]
    have x: "run_except now tid cid urls (ConnectionError m) (s\<lparr>faults := rest\<rparr>) =
        (Inl (ConnectionError m'), s\<lparr>faults := rest'\<rparr>)"
      by simp
    show ?thesis
      using run_try_down [OF assms, of det cv now tid cid urls n] x
      by (simp add: process_video_screenshots_def process_task_def)
  qed
  have up: "let e = ConnectionError m;
           stat = ''stats:failed:'' @ ymd now;
           s' = s\<lparr>faults := tl (tl rest),
                   entries := (entries s)(''result:'' @ tid \<mapsto> (86400, error_result now tid cid urls e)),
                   counters := (counters s)(stat \<mapsto>
                     (case counters s stat of None \<Rightarrow> 1 | Some c \<Rightarrow> c + 1))\<rparr>
       in process_video_screenshots det cv now tid cid urls n s =
            (Inl e, snd (process_screenshots det cv urls n), s') \<and>
          process_task det cv now \<lparr>task_id = tid, clip_id = cid, screenshot_urls = urls\<rparr> n s =
            (Inr (error_result now tid cid urls e), snd (process_screenshots det cv urls n), s') \<and>
          Status (error_result now tid cid urls e) = ''failed'' \<and>
          Error (error_result now tid cid urls e) = Some m"
    if up: "goes_through rest \<and> goes_through (tl rest)"
  proof -
    let ?e = "ConnectionError m"
    let ?s1 = "s\<lparr>faults := rest\<rparr>"
    from up have "goes_through (faults ?s1)" "goes_through (tl (faults ?s1))" by simp_all
    from run_except_up [OF this, of now tid cid urls ?e]
    have x: "run_except now tid cid urls ?e ?s1 =
        (Inr (), s\<lparr>faults := tl (tl rest),
                   entries := (entries s)(''result:'' @ tid \<mapsto> (86400, error_result now tid cid urls ?e)),
                   counters := (counters s)(''stats:failed:'' @ ymd now \<mapsto>
                     (case counters s (''stats:failed:'' @ ymd now) of None \<Rightarrow> 1 | Some c \<Rightarrow> c + 1))\<rparr>)"
      by simp
    show ?thesis
      using run_try_down [OF assms, of det cv now tid cid urls n] x
      by (simp add: process_video_screenshots_def process_task_def Let_def error_result_def)
  qed
  have loop: "queue (snd (main_iteration det cv now n s0)) = butlast (queue s0)"
    if "goes_through (faults s0)" for s0
    using that by (rule main_iteration_queue)
  from up down loop show ?thesis by blast
qed

text \<open>
  The three cases at the example task: a store that refuses one call, a store that
  refuses two, and a queue holding the task in front of a store that refuses the first
  write.
\<close>

theorem store_unreachable_on_first_write_witness:
  "faults store_down1 = [Some ''Error 111 connecting to redis:6379. Connection refused.''] \<and>
   goes_through [] \<and> goes_through (tl []) \<and>
   process_video_screenshots det_ex cv_ex now_ex ''t1'' ''clip'' [''c'', ''a'', ''b''] net_ex store_down1 =
     (Inl (ConnectionError ''Error 111 connecting to redis:6379. Connection refused.''),
      net_ex\<lparr>requests := [''c'', ''a'', ''b'']\<rparr>,
      store_ex\<lparr>entries := [''result:t1'' \<mapsto> (86400, failed_ex)],
               counters := [''stats:failed:2026-11-04'' \<mapsto> 1]\<rparr>) \<and>
   process_task det_ex cv_ex now_ex task_ex net_ex store_down1 =
     (Inr failed_ex,
      net_ex\<lparr>requests := [''c'', ''a'', ''b'']\<rparr>,
      store_ex\<lparr>entries := [''result:t1'' \<mapsto> (86400, failed_ex)],
               counters := [''stats:failed:2026-11-04'' \<mapsto> 1]\<rparr>) \<and>
   Status failed_ex = ''failed'' \<and>
   Error failed_ex = Some ''Error 111 connecting to redis:6379. Connection refused.'' \<and>
   faults store_down2 = [Some ''Connection refused.'', Some ''Connection refused.''] \<and>
   process_video_screenshots det_ex cv_ex now_ex ''t1'' ''clip'' [''c'', ''a'', ''b''] net_ex store_down2 =
     (Inl (ConnectionError ''Connection refused.''), net_ex\<lparr>requests := [''c'', ''a'', ''b'']\<rparr>, store_ex) \<and>
   process_task det_ex cv_ex now_ex task_ex net_ex store_down2 =
     (Inl (ConnectionError ''Connection refused.''), net_ex\<lparr>requests := [''c'', ''a'', ''b'']\<rparr>, store_ex) \<and>
   goes_through (faults store_queued) \<and>
   queue store_queued = [task_ex] \<and>
   queue (snd (main_iteration det_ex cv_ex now_ex net_ex store_queued)) = []"
proof -
  note inst = store_unreachable_on_first_write
    [where det = det_ex and cv = cv_ex and now = now_ex and n = net_ex
       and tid = "''t1''" and cid = "''clip''" and urls = "[''c'', ''a'', ''b'']"]
  have f1: "faults store_down1 = [Some ''Error 111 connecting to redis:6379. Connection refused.'']"
    by (simp add: store_down1_def)
  have f2: "faults store_down2 = [Some ''Connection refused.'', Some ''Connection refused.'']"
    by (simp add: store_down2_def)
  have g: "goes_through [] \<and> goes_through (tl [])" by (simp add: goes_through_def)
  have q: "goes_through (faults store_queued) \<and> queue store_queued = [task_ex]"
    by (simp add: store_queued_def goes_through_def)
  from inst [OF f1] g
  have r1: "process_video_screenshots det_ex cv_ex now_ex ''t1'' ''clip'' [''c'', ''a'', ''b''] net_ex store_down1 =
     (Inl (ConnectionError ''Error 111 connecting to redis:6379. Connection refused.''),
      net_ex\<lparr>requests := [''c'', ''a'', ''b'']\<rparr>,
      store_ex\<lparr>entries := [''result:t1'' \<mapsto> (86400, failed_ex)],
               counters := [''stats:failed:2026-11-04'' \<mapsto> 1]\<rparr>) \<and>
   process_task det_ex cv_ex now_ex task_ex net_ex store_down1 =
     (Inr failed_ex,
      net_ex\<lparr>requests := [''c'', ''a'', ''b'']\<rparr>,
      store_ex\<lparr>entries := [''result:t1'' \<mapsto> (86400, failed_ex)],
               counters := [''stats:failed:2026-11-04'' \<mapsto> 1]\<rparr>) \<and>
   Status failed_ex = ''failed'' \<and>
   Error failed_ex = Some ''Error 111 connecting to redis:6379. Connection refused.''"
    by (simp add: Let_def world_defs error_result_def process_screenshots_def detect_ex
          numeral_3_eq_3)
  from inst [OF f2]
  have r2: "process_video_screenshots det_ex cv_ex now_ex ''t1'' ''clip'' [''c'', ''a'', ''b''] net_ex store_down2 =
     (Inl (ConnectionError ''Connection refused.''), net_ex\<lparr>requests := [''c'', ''a'', ''b'']\<rparr>, store_ex) \<and>
   process_task det_ex cv_ex now_ex task_ex net_ex store_down2 =
     (Inl (ConnectionError ''Connection refused.''), net_ex\<lparr>requests := [''c'', ''a'', ''b'']\<rparr>, store_ex)"
    by (simp add: world_defs store_down2_def process_screenshots_def detect_ex)
  from inst [OF f1] q
  have r3: "queue (snd (main_iteration det_ex cv_ex now_ex net_ex store_queued)) = []"
    by simp
  from f1 f2 g q r1 r2 r3 show ?thesis by blast
qed

text \<open>
  C1 as stated fails: when the store refuses the write of the result and the write of
  the handler, the task ends with no record under \<open>result:t1\<close> and no counter; and
  when only the first write is refused, \<open>process_task\<close> returns the error record
  instead of raising, and \<open>main\<close> leaves the queue empty.
\<close>

theorem store_unreachable_counterexample:
  "faults store_down2 = [Some ''Connection refused.'', Some ''Connection refused.''] \<and>
   process_video_screenshots det_ex cv_ex now_ex ''t1'' ''clip'' [''c'', ''a'', ''b''] net_ex store_down2 =
     (Inl (ConnectionError ''Connection refused.''), net_ex\<lparr>requests := [''c'', ''a'', ''b'']\<rparr>, store_ex) \<and>
   process_task det_ex cv_ex now_ex task_ex net_ex store_down2 =
     (Inl (ConnectionError ''Connection refused.''), net_ex\<lparr>requests := [''c'', ''a'', ''b'']\<rparr>, store_ex) \<and>
   entries store_ex ''result:t1'' = None \<and>
   counters store_ex ''stats:failed:2026-11-04'' = None \<and>
   fst (process_task det_ex cv_ex now_ex task_ex net_ex store_down1) = Inr failed_ex \<and>
   main_iteration det_ex cv_ex now_ex net_ex store_queued =
     (net_ex\<lparr>requests := [''c'', ''a'', ''b'']\<rparr>,
      store_ex\<lparr>entries := [''result:t1'' \<mapsto> (86400, failed_ex)],
               counters := [''stats:failed:2026-11-04'' \<mapsto> 1]\<rparr>)"
  by (simp add: detect_ex runner_defs store_defs world_defs store_down2_def store_queued_def
        main_iteration_def brpop_def Let_def numeral_3_eq_3)

text \<open>
  C5. A URL whose download ends in a status other than 200, in a timeout or in any
  exception, whose bytes do not decode, or whose frame is too small for the portrait
  region, has no champion. Every URL of the list is requested exactly once, the failing
  ones too. The character, the confidence and the URL of the match returned are those
  returned for the list without the failing URLs. With the store in reach
  both runners return the record of a completed task, which counts all the URLs,
  however many of them fail.
\<close>

theorem failing_url_is_isolated:
  "(url_fails det cv n u \<longrightarrow> fst (process_screenshot_url det cv u n) = None) \<and>
   requests (snd (process_multiple_screenshots det cv urls n)) = requests n @ urls \<and>
   (let kept = filter (\<lambda>u. \<not> url_fails det cv n u) urls
    in map_option character_name (fst (process_multiple_screenshots det cv urls n)) =
         map_option character_name (fst (process_multiple_screenshots det cv kept n)) \<and>
       map_option confidence (fst (process_multiple_screenshots det cv urls n)) =
         map_option confidence (fst (process_multiple_screenshots det cv kept n)) \<and>
       map_option url (fst (process_multiple_screenshots det cv urls n)) =
         map_option url (fst (process_multiple_screenshots det cv kept n))) \<and>
   (goes_through (faults s) \<and> goes_through (tl (faults s)) \<longrightarrow>
      fst (process_video_screenshots det cv now tid cid urls n s) =
        Inr (completed_result now tid cid urls (fst (process_screenshots det cv urls n))) \<and>
      fst (process_task det cv now \<lparr>task_id = tid, clip_id = cid, screenshot_urls = urls\<rparr> n s) =
        Inr (completed_result now tid cid urls (fst (process_screenshots det cv urls n))) \<and>
      Status (completed_result now tid cid urls (fst (process_screenshots det cv urls n))) =
        ''completed'' \<and>
      TotalScreenshots (completed_result now tid cid urls (fst (process_screenshots det cv urls n))) =
        length urls)"
proof -
  let ?champ = "\<lambda>u. fst (process_screenshot_url det cv u n)"
  let ?kept = "filter (\<lambda>u. \<not> url_fails det cv n u) urls"
  have none: "url_fails det cv n u \<longrightarrow> ?champ u = None"
    by (simp add: url_fails_None)
  have log: "requests (snd (process_multiple_screenshots det cv urls n)) = requests n @ urls"
    by (simp add: process_multiple_screenshots_net)
  have "\<forall>u \<in> set urls. \<not> \<not> url_fails det cv n u \<longrightarrow> ?champ u = None"
    by (simp add: url_fails_None)
  from best_overall_loop_skip [OF this, of 0 None 0 "- 1" 0 "- 1"]
  have same: "fst (best_overall_loop (List.enumerate 0 (map (\<lambda>u. Inr (?champ u)) urls)) (None, 0, - 1)) =
      fst (best_overall_loop (List.enumerate 0 (map (\<lambda>u. Inr (?champ u)) ?kept)) (None, 0, - 1))" .
  have iso: "map_option character_name (fst (process_multiple_screenshots det cv urls n)) =
         map_option character_name (fst (process_multiple_screenshots det cv ?kept n)) \<and>
       map_option confidence (fst (process_multiple_screenshots det cv urls n)) =
         map_option confidence (fst (process_multiple_screenshots det cv ?kept n)) \<and>
       map_option url (fst (process_multiple_screenshots det cv urls n)) =
         map_option url (fst (process_multiple_screenshots det cv ?kept n))"
    using process_multiple_screenshots_fields [of det cv urls n]
      process_multiple_screenshots_fields [of det cv ?kept n] same
    by simp
  have fin: "fst (process_video_screenshots det cv now tid cid urls n s) =
        Inr (completed_result now tid cid urls (fst (process_screenshots det cv urls n))) \<and>
      fst (process_task det cv now \<lparr>task_id = tid, clip_id = cid, screenshot_urls = urls\<rparr> n s) =
        Inr (completed_result now tid cid urls (fst (process_screenshots det cv urls n))) \<and>
      Status (completed_result now tid cid urls (fst (process_screenshots det cv urls n))) =
        ''completed'' \<and>
      TotalScreenshots (completed_result now tid cid urls (fst (process_screenshots det cv urls n))) =
        length urls"
    if up: "goes_through (faults s) \<and> goes_through (tl (faults s))"
  proof -
    from up have t: "fst (run_try det cv now tid cid urls n s) =
           Inr (completed_result now tid cid urls (fst (process_screenshots det cv urls n)))"
      by (simp add: run_try_up)
    obtain o1 n1 s1 where r: "run_try det cv now tid cid urls n s = (o1, n1, s1)"
      by (cases "run_try det cv now tid cid urls n s")
    with t have "o1 = Inr (completed_result now tid cid urls (fst (process_screenshots det cv urls n)))"
      by simp
    with r show ?thesis
      by (cases "fst (process_screenshots det cv urls n)")
         (simp_all add: process_video_screenshots_def process_task_def completed_result_def Let_def)
  qed
  from none log iso fin show ?thesis by (simp add: Let_def)
qed

text \<open>
  Of \<open>[a, d, b]\<close> the URL \<open>d\<close> answers 404: the three are requested once each, the
  match is that of \<open>a\<close>, and the task completes with three screenshots counted. The
  URLs \<open>t\<close> (timeout), \<open>x\<close> (connection error), \<open>e\<close> (undecodable body) and \<open>s\<close>
  (a frame of 800 by 600) have no champion either.
\<close>

theorem failing_url_is_isolated_witness:
  "url_fails det_ex cv_ex net_ex ''d'' \<and> fst (process_screenshot_url det_ex cv_ex ''d'' net_ex) = None \<and>
   url_fails det_ex cv_ex net_ex ''t'' \<and> fst (process_screenshot_url det_ex cv_ex ''t'' net_ex) = None \<and>
   url_fails det_ex cv_ex net_ex ''x'' \<and> fst (process_screenshot_url det_ex cv_ex ''x'' net_ex) = None \<and>
   url_fails det_ex cv_ex net_ex ''e'' \<and> fst (process_screenshot_url det_ex cv_ex ''e'' net_ex) = None \<and>
   url_fails det_ex cv_ex net_ex ''s'' \<and> fst (process_screenshot_url det_ex cv_ex ''s'' net_ex) = None \<and>
   requests net_ex = [] \<and>
   requests (snd (process_multiple_screenshots det_ex cv_ex [''a'', ''d'', ''b''] net_ex)) =
     [''a'', ''d'', ''b''] \<and>
   filter (\<lambda>u. \<not> url_fails det_ex cv_ex net_ex u) [''a'', ''d'', ''b''] = [''a'', ''b''] \<and>
   fst (process_multiple_screenshots det_ex cv_ex [''a'', ''d'', ''b''] net_ex) =
     Some \<lparr>character_name = ''wraith'', confidence = 1, url = ''a'', screenshot_index = 0\<rparr> \<and>
   map_option url (fst (process_multiple_screenshots det_ex cv_ex [''a'', ''b''] net_ex)) = Some ''a'' \<and>
   goes_through (faults store_ex) \<and> goes_through (tl (faults store_ex)) \<and>
   fst (process_task det_ex cv_ex now_ex
          \<lparr>task_id = ''t1'', clip_id = ''clip'', screenshot_urls = [''a'', ''d'', ''b'']\<rparr>
          net_ex store_ex) =
     Inr (completed_result now_ex ''t1'' ''clip'' [''a'', ''d'', ''b'']
            (Some \<lparr>character_name = ''wraith'', confidence = 1, url = ''a'', screenshot_index = 0\<rparr>)) \<and>
   Status (completed_result now_ex ''t1'' ''clip'' [''a'', ''d'', ''b'']
            (Some \<lparr>character_name = ''wraith'', confidence = 1, url = ''a'', screenshot_index = 0\<rparr>)) =
     ''completed'' \<and>
   TotalScreenshots (completed_result now_ex ''t1'' ''clip'' [''a'', ''d'', ''b'']
            (Some \<lparr>character_name = ''wraith'', confidence = 1, url = ''a'', screenshot_index = 0\<rparr>)) =
     3"
proof -
  note inst = failing_url_is_isolated
    [where det = det_ex and cv = cv_ex and n = net_ex and urls = "[''a'', ''d'', ''b'']"
       and now = now_ex and tid = "''t1''" and cid = "''clip''" and s = store_ex]
  have fd: "url_fails det_ex cv_ex net_ex ''d''" by (simp add: url_fails_def ex_defs)
  have ft: "url_fails det_ex cv_ex net_ex ''t''" by (simp add: url_fails_def ex_defs)
  have fx: "url_fails det_ex cv_ex net_ex ''x''" by (simp add: url_fails_def ex_defs)
  have fe: "url_fails det_ex cv_ex net_ex ''e''" by (simp add: url_fails_def ex_defs)
  have fs: "url_fails det_ex cv_ex net_ex ''s''" by (simp add: url_fails_def ex_defs model_defs)
  have oa: "\<not> url_fails det_ex cv_ex net_ex ''a''" by (simp add: url_fails_def ex_defs model_defs)
  have ob: "\<not> url_fails det_ex cv_ex net_ex ''b''" by (simp add: url_fails_def ex_defs model_defs)
  from inst [where u = "''d''"] fd have nd: "fst (process_screenshot_url det_ex cv_ex ''d'' net_ex) = None"
    by blast
  from inst [where u = "''t''"] ft have nt: "fst (process_screenshot_url det_ex cv_ex ''t'' net_ex) = None"
    by blast
  from inst [where u = "''x''"] fx have nx: "fst (process_screenshot_url det_ex cv_ex ''x'' net_ex) = None"
    by blast
  from inst [where u = "''e''"] fe have ne: "fst (process_screenshot_url det_ex cv_ex ''e'' net_ex) = None"
    by blast
  from inst [where u = "''s''"] fs have ns: "fst (process_screenshot_url det_ex cv_ex ''s'' net_ex) = None"
    by blast
  have r0: "requests net_ex = []" by (simp add: net_ex_def)
  from inst [where u = "''d''"] r0
  have rq: "requests (snd (process_multiple_screenshots det_ex cv_ex [''a'', ''d'', ''b''] net_ex)) =
     [''a'', ''d'', ''b'']"
    by simp
  from fd oa ob
  have kept: "filter (\<lambda>u. \<not> url_fails det_ex cv_ex net_ex u) [''a'', ''d'', ''b''] = [''a'', ''b'']"
    by simp
  have run: "fst (process_multiple_screenshots det_ex cv_ex [''a'', ''d'', ''b''] net_ex) =
     Some \<lparr>character_name = ''wraith'', confidence = 1, url = ''a'', screenshot_index = 0\<rparr>"
    by (simp add: ex_defs model_defs enumerate_eq_zip)
  from inst [where u = "''d''"] kept run
  have iso: "map_option url (fst (process_multiple_screenshots det_ex cv_ex [''a'', ''b''] net_ex)) = Some ''a''"
    by (simp add: Let_def)
  have up: "goes_through (faults store_ex) \<and> goes_through (tl (faults store_ex))"
    by (simp add: store_ex_def goes_through_def)
  from inst [where u = "''d''"] up run
  have fin: "fst (process_task det_ex cv_ex now_ex
          \<lparr>task_id = ''t1'', clip_id = ''clip'', screenshot_urls = [''a'', ''d'', ''b'']\<rparr>
          net_ex store_ex) =
     Inr (completed_result now_ex ''t1'' ''clip'' [''a'', ''d'', ''b'']
            (Some \<lparr>character_name = ''wraith'', confidence = 1, url = ''a'', screenshot_index = 0\<rparr>)) \<and>
   Status (completed_result now_ex ''t1'' ''clip'' [''a'', ''d'', ''b'']
            (Some \<lparr>character_name = ''wraith'', confidence = 1, url = ''a'', screenshot_index = 0\<rparr>)) =
     ''completed'' \<and>
   TotalScreenshots (completed_result now_ex ''t1'' ''clip'' [''a'', ''d'', ''b'']
            (Some \<lparr>character_name = ''wraith'', confidence = 1, url = ''a'', screenshot_index = 0\<rparr>)) =
     3"
    by (simp add: process_screenshots_def)
  from fd nd ft nt fx nx fe ne fs ns r0 rq kept run iso up fin show ?thesis by blast
qed




text \<open>
  C7. With a configured region \<open>(x, y, w, h)\<close>,
  \<open>extract_portrait_from_image\<close> raises exactly when the height of the image is below
  \<open>y + h\<close> or its width below \<open>x + w\<close>; otherwise it returns the slice
  \<open>image[y:y+h, x:x+w]\<close>, which for a region of non-negative numbers has \<open>h\<close> rows
  and \<open>w\<close> columns and holds at row \<open>i\<close> and column \<open>j\<close> the pixel of the image
  at row \<open>y + i\<close> and column \<open>x + j\<close>.
\<close>

theorem extract_portrait_from_image_crop:
  assumes "portrait_region det = [x, y, w, h]"
  shows "((\<exists>e. extract_portrait_from_image det img = Inl e) \<longleftrightarrow>
            (int (height img) < y + h \<or> int (width img) < x + w)) \<and>
         (\<not> (int (height img) < y + h \<or> int (width img) < x + w) \<longrightarrow>
            extract_portrait_from_image det img = Inr (crop img y (y + h) x (x + w))) \<and>
         (\<not> (int (height img) < y + h \<or> int (width img) < x + w) \<and>
          0 \<le> x \<and> 0 \<le> y \<and> 0 \<le> w \<and> 0 \<le> h \<longrightarrow>
            height (crop img y (y + h) x (x + w)) = nat h \<and>
            width (crop img y (y + h) x (x + w)) = nat w \<and>
            (\<forall>i j. pix (crop img y (y + h) x (x + w)) i j = pix img (nat y + i) (nat x + j)))"
proof -
  have r: "extract_portrait_from_image det img =
      (if int (height img) < y + h \<or> int (width img) < x + w
       then Inl (ValueError ''Image dimensions too small for portrait extraction'')
       else Inr (crop img y (y + h) x (x + w)))"
    using assms by (simp add: extract_portrait_from_image_def)
  have c: "height (crop img y (y + h) x (x + w)) = nat h \<and>
            width (crop img y (y + h) x (x + w)) = nat w \<and>
            (\<forall>i j. pix (crop img y (y + h) x (x + w)) i j = pix img (nat y + i) (nat x + j))"
    if "\<not> (int (height img) < y + h \<or> int (width img) < x + w) \<and>
          0 \<le> x \<and> 0 \<le> y \<and> 0 \<le> w \<and> 0 \<le> h"
  proof -
    from that have "crop img y (y + h) x (x + w) =
           \<lparr>height = nat h, width = nat w, pix = (\<lambda>i j. pix img (nat y + i) (nat x + j))\<rparr>"
      by (intro crop_inside) simp_all
    then show ?thesis by simp
  qed
  from r c show ?thesis by auto
qed

text \<open>
  The default region in a frame of 1920 by 1080, and in a frame of 800 by 600.
\<close>

theorem extract_portrait_from_image_crop_witness:
  "portrait_region det_ex = [90, 955, 77, 66] \<and>
   \<not> (int (height (flat 1080 1920 10)) < 955 + 66 \<or> int (width (flat 1080 1920 10)) < 90 + 77) \<and>
   extract_portrait_from_image det_ex (flat 1080 1920 10) = Inr (flat 66 77 10) \<and>
   crop (flat 1080 1920 10) 955 (955 + 66) 90 (90 + 77) = flat 66 77 10 \<and>
   height (flat 66 77 10) = 66 \<and> width (flat 66 77 10) = 77 \<and>
   int (height (flat 600 800 10)) < 955 + 66 \<and>
   extract_portrait_from_image det_ex (flat 600 800 10) =
     Inl (ValueError ''Image dimensions too small for portrait extraction'')"
proof -
  have reg: "portrait_region det_ex = [90, 955, 77, 66]" by (simp add: det_ex_def)
  note inst = extract_portrait_from_image_crop [OF reg]
  have big: "\<not> (int (height (flat 1080 1920 10)) < 955 + 66 \<or> int (width (flat 1080 1920 10)) < 90 + 77)"
    by (simp add: flat_def)
  have cr: "crop (flat 1080 1920 10) 955 (955 + 66) 90 (90 + 77) = flat 66 77 10"
    by (simp add: flat_def crop_def slice_bounds_def adjust_index_def)
  from inst [of "flat 1080 1920 10"] big cr
  have ok: "extract_portrait_from_image det_ex (flat 1080 1920 10) = Inr (flat 66 77 10)"
    by simp
  have small: "int (height (flat 600 800 10)) < 955 + 66" by (simp add: flat_def)
  from inst [of "flat 600 800 10"] small
  obtain e where "extract_portrait_from_image det_ex (flat 600 800 10) = Inl e" by blast
  then have bad: "extract_portrait_from_image det_ex (flat 600 800 10) =
     Inl (ValueError ''Image dimensions too small for portrait extraction'')"
    by (simp add: extract_portrait_from_image_def det_ex_def flat_def)
  from reg big cr ok small bad show ?thesis by (simp add: flat_def)
qed

text \<open>
  C8. \<open>calculate_similarity\<close> raises exactly when one of the two portraits is empty.
  Otherwise it resizes the second portrait to the width and height of the first when
  the two shapes differ, whatever its aspect ratio was, turns both into single-channel
  images, and returns the mean of three scores of the first against the second: the
  normalised correlation coefficient, the normalised cross-correlation, and one minus
  the normalised squared difference.
\<close>

theorem calculate_similarity_mean:
  "((\<exists>e. calculate_similarity cv portrait1 portrait2 = Inl e) \<longleftrightarrow>
      is_empty portrait1 \<or> is_empty portrait2) \<and>
   (\<not> is_empty portrait1 \<and> \<not> is_empty portrait2 \<longrightarrow>
      (let second =
             (if same_shape portrait1 portrait2 then portrait2
              else \<lparr>height = height portrait1, width = width portrait1,
                     pix = resample cv INTER_LINEAR portrait2 (width portrait1) (height portrait1)\<rparr>);
           gray1 = \<lparr>height = height portrait1, width = width portrait1,
                    pix = (\<lambda>i j. bgr2gray cv (pix portrait1 i j))\<rparr>;
           gray2 = \<lparr>height = height portrait1, width = width portrait1,
                    pix = (\<lambda>i j. bgr2gray cv (pix second i j))\<rparr>
       in calculate_similarity cv portrait1 portrait2 =
            Inr ((template_score cv TM_CCOEFF_NORMED gray1 gray2 +
                  template_score cv TM_CCORR_NORMED gray1 gray2 +
                  (1 - template_score cv TM_SQDIFF_NORMED gray1 gray2)) / 3)))"
proof -
  have bad1: "\<exists>e. calculate_similarity cv portrait1 portrait2 = Inl e" if "is_empty portrait1"
    using that
    by (auto simp: calculate_similarity_def cv2_resize_def cv2_cvtColor_def is_empty_def)
  have bad2: "\<exists>e. calculate_similarity cv portrait1 portrait2 = Inl e"
    if "is_empty portrait2" "\<not> is_empty portrait1"
    using that
    by (auto simp: calculate_similarity_def cv2_resize_def cv2_cvtColor_def is_empty_def
          same_shape_def)
  have good: "let second =
             (if same_shape portrait1 portrait2 then portrait2
              else \<lparr>height = height portrait1, width = width portrait1,
                     pix = resample cv INTER_LINEAR portrait2 (width portrait1) (height portrait1)\<rparr>);
           gray1 = \<lparr>height = height portrait1, width = width portrait1,
                    pix = (\<lambda>i j. bgr2gray cv (pix portrait1 i j))\<rparr>;
           gray2 = \<lparr>height = height portrait1, width = width portrait1,
                    pix = (\<lambda>i j. bgr2gray cv (pix second i j))\<rparr>
       in calculate_similarity cv portrait1 portrait2 =
            Inr ((template_score cv TM_CCOEFF_NORMED gray1 gray2 +
                  template_score cv TM_CCORR_NORMED gray1 gray2 +
                  (1 - template_score cv TM_SQDIFF_NORMED gray1 gray2)) / 3)"
    if ne: "\<not> is_empty portrait1 \<and> \<not> is_empty portrait2"
  proof -
    define second where "second =
             (if same_shape portrait1 portrait2 then portrait2
              else \<lparr>height = height portrait1, width = width portrait1,
                     pix = resample cv INTER_LINEAR portrait2 (width portrait1) (height portrait1)\<rparr>)"
    define gray1 where "gray1 = \<lparr>height = height portrait1, width = width portrait1,
                    pix = (\<lambda>i j. bgr2gray cv (pix portrait1 i j))\<rparr>"
    define gray2 where "gray2 = \<lparr>height = height portrait1, width = width portrait1,
                    pix = (\<lambda>i j. bgr2gray cv (pix second i j))\<rparr>"
    from ne have rs: "(if \<not> same_shape portrait1 portrait2
            then cv2_resize cv portrait2 (width portrait1, height portrait1) INTER_LINEAR
            else Inr portrait2) = Inr second"
      by (simp add: second_def cv2_resize_def is_empty_def)
    have shape: "height second = height portrait1 \<and> width second = width portrait1"
      by (simp add: second_def same_shape_def)
    from ne have c1: "cv2_cvtColor cv portrait1 = Inr gray1"
      by (simp add: cv2_cvtColor_def gray1_def)
    from ne shape have c2: "cv2_cvtColor cv second = Inr gray2"
      by (simp add: cv2_cvtColor_def gray2_def is_empty_def)
    from ne have "\<not> is_empty gray1" "same_shape gray1 gray2"
      by (simp_all add: gray1_def gray2_def is_empty_def same_shape_def)
    from method_scores_same_shape [OF this, of cv] rs c1 c2
    have "calculate_similarity cv portrait1 portrait2 =
            Inr ((template_score cv TM_CCOEFF_NORMED gray1 gray2 +
                  template_score cv TM_CCORR_NORMED gray1 gray2 +
                  (1 - template_score cv TM_SQDIFF_NORMED gray1 gray2)) / 3)"
      by (simp add: calculate_similarity_def np_mean_def)
    then show ?thesis
      unfolding Let_def second_def [symmetric] gray1_def [symmetric] gray2_def [symmetric] .
  qed
  have ok: "\<exists>c. calculate_similarity cv portrait1 portrait2 = Inr c"
    if "\<not> is_empty portrait1 \<and> \<not> is_empty portrait2"
    using good [OF that] unfolding Let_def by blast
  have iff: "(\<exists>e. calculate_similarity cv portrait1 portrait2 = Inl e) \<longleftrightarrow>
      is_empty portrait1 \<or> is_empty portrait2"
  proof
    assume "\<exists>e. calculate_similarity cv portrait1 portrait2 = Inl e"
    with ok show "is_empty portrait1 \<or> is_empty portrait2" by force
  next
    assume "is_empty portrait1 \<or> is_empty portrait2"
    with bad1 bad2 show "\<exists>e. calculate_similarity cv portrait1 portrait2 = Inl e" by blast
  qed
  from iff good show ?thesis by blast
qed

text \<open>
  Two portraits of the same shape and different colours score one half; a reference of
  another shape is resized first and, of the same colour, scores one; an empty portrait
  makes the call raise.
\<close>

theorem calculate_similarity_mean_witness:
  "\<not> is_empty (flat 66 77 30) \<and> \<not> is_empty (flat 66 77 10) \<and>
   same_shape (flat 66 77 30) (flat 66 77 10) \<and>
   calculate_similarity cv_ex (flat 66 77 30) (flat 66 77 10) = Inr ((1 / 2 + 1 / 2 + (1 - 1 / 2)) / 3) \<and>
   \<not> is_empty (flat 40 50 10) \<and> \<not> same_shape (flat 66 77 10) (flat 40 50 10) \<and>
   calculate_similarity cv_ex (flat 66 77 10) (flat 40 50 10) = Inr ((1 + 1 + (1 - 0)) / 3) \<and>
   is_empty (flat 0 77 10) \<and>
   calculate_similarity cv_ex (flat 0 77 10) (flat 66 77 10) = Inl (CvError ''resize: empty size'')"
proof -
  have f: "resample cv_ex = (\<lambda>interp src w h i j. pix src 0 0)" "bgr2gray cv_ex = fst"
    "template_score cv_ex = (\<lambda>m a t.
         if pix a 0 0 = pix t 0 0 then (if m = TM_SQDIFF_NORMED then 0 else 1) else 1 / 2)"
    by (simp_all add: cv_ex_def fun_eq_iff)
  have e: "\<not> is_empty (flat 66 77 30) \<and> \<not> is_empty (flat 66 77 10) \<and> \<not> is_empty (flat 40 50 10) \<and>
      is_empty (flat 0 77 10)"
    by (simp add: is_empty_def flat_def)
  have s: "same_shape (flat 66 77 30) (flat 66 77 10) \<and> \<not> same_shape (flat 66 77 10) (flat 40 50 10)"
    by (simp add: same_shape_def flat_def)
  from calculate_similarity_mean [where cv = cv_ex and ?portrait1.0 = "flat 66 77 30"
      and ?portrait2.0 = "flat 66 77 10"] e s
  have a: "calculate_similarity cv_ex (flat 66 77 30) (flat 66 77 10) =
      Inr ((1 / 2 + 1 / 2 + (1 - 1 / 2)) / 3)"
    by (simp add: Let_def f flat_def)
  from calculate_similarity_mean [where cv = cv_ex and ?portrait1.0 = "flat 66 77 10"
      and ?portrait2.0 = "flat 40 50 10"] e s
  have b: "calculate_similarity cv_ex (flat 66 77 10) (flat 40 50 10) = Inr ((1 + 1 + (1 - 0)) / 3)"
    by (simp add: Let_def f flat_def)
  from calculate_similarity_mean [where cv = cv_ex and ?portrait1.0 = "flat 0 77 10"
      and ?portrait2.0 = "flat 66 77 10"] e
  obtain x where "calculate_similarity cv_ex (flat 0 77 10) (flat 66 77 10) = Inl x" by blast
  then have c: "calculate_similarity cv_ex (flat 0 77 10) (flat 66 77 10) = Inl (CvError ''resize: empty size'')"
    by (simp add: calculate_similarity_def cv2_resize_def same_shape_def is_empty_def flat_def)
  from e s a b c show ?thesis by simp
qed




end
